theory Spec2Isabelle
  imports Complex_Main
begin

section \<open>Time values and the calendar of the Date object\<close>

text \<open>
  The page \<^verbatim>\<open>src/pages/account/statistics.js\<close> works on JavaScript \<^verbatim>\<open>Date\<close>
  objects.  A Date holds a time value: a whole number of milliseconds since
  1970-01-01T00:00:00Z, or NaN (an invalid date).  A time value is an \<open>int\<close> here and a
  Date is an \<open>int option\<close>, \<open>None\<close> being NaN.  The functions of this section are the
  abstract operations of ECMA-262 (section "Date Objects") under their own names.
\<close>

definition msPerDay :: int where
  "msPerDay = 86400000"

definition Day :: "int \<Rightarrow> int" where
  "Day t = t div msPerDay"

definition TimeWithinDay :: "int \<Rightarrow> int" where
  "TimeWithinDay t = t mod msPerDay"

definition DaysInYear :: "int \<Rightarrow> int" where
  "DaysInYear y =
     (if y mod 4 \<noteq> 0 then 365
      else if y mod 100 \<noteq> 0 then 366
      else if y mod 400 \<noteq> 0 then 365
      else 366)"

definition DayFromYear :: "int \<Rightarrow> int" where
  "DayFromYear y =
     365 * (y - 1970) + (y - 1969) div 4 - (y - 1901) div 100 + (y - 1601) div 400"

text \<open>
  ECMA-262 defines \<open>YearFromTime t\<close> as the largest \<open>y\<close> with
  \<open>DayFromYear y * msPerDay \<le> t\<close>.  The executable form below estimates the year from
  the mean year length (146097 days in 400 years) and corrects the estimate by one;
  \<open>YearFromTime_lower\<close> and \<open>YearFromTime_upper\<close> show that it meets the definition.
\<close>

definition YearFromTime :: "int \<Rightarrow> int" where
  "YearFromTime t =
     (let d = Day t; y = 1970 + (400 * d) div 146097
      in if d < DayFromYear y then y - 1
         else if DayFromYear (y + 1) \<le> d then y + 1
         else y)"

definition InLeapYear :: "int \<Rightarrow> int" where
  "InLeapYear t = (if DaysInYear (YearFromTime t) = 366 then 1 else 0)"

definition DayWithinYear :: "int \<Rightarrow> int" where
  "DayWithinYear t = Day t - DayFromYear (YearFromTime t)"

definition MonthFromTime :: "int \<Rightarrow> int" where
  "MonthFromTime t =
     (let d = DayWithinYear t; l = InLeapYear t
      in if d < 31 then 0
         else if d < 59 + l then 1
         else if d < 90 + l then 2
         else if d < 120 + l then 3
         else if d < 151 + l then 4
         else if d < 181 + l then 5
         else if d < 212 + l then 6
         else if d < 243 + l then 7
         else if d < 273 + l then 8
         else if d < 304 + l then 9
         else if d < 334 + l then 10
         else 11)"

definition DateFromTime :: "int \<Rightarrow> int" where
  "DateFromTime t =
     (let d = DayWithinYear t; l = InLeapYear t; m = MonthFromTime t
      in if m = 0 then d + 1
         else if m = 1 then d - 30
         else if m = 2 then d - 58 - l
         else if m = 3 then d - 89 - l
         else if m = 4 then d - 119 - l
         else if m = 5 then d - 150 - l
         else if m = 6 then d - 180 - l
         else if m = 7 then d - 211 - l
         else if m = 8 then d - 242 - l
         else if m = 9 then d - 272 - l
         else if m = 10 then d - 303 - l
         else d - 333 - l)"

definition HourFromTime :: "int \<Rightarrow> int" where
  "HourFromTime t = (t div 3600000) mod 24"

definition MinFromTime :: "int \<Rightarrow> int" where
  "MinFromTime t = (t div 60000) mod 60"

definition SecFromTime :: "int \<Rightarrow> int" where
  "SecFromTime t = (t div 1000) mod 60"

definition msFromTime :: "int \<Rightarrow> int" where
  "msFromTime t = t mod 1000"

text \<open>
  \<open>MakeDay year month date\<close> is the day number of the first day of the month
  (\<open>month\<close> may lie outside 0..11 and then carries into the year) plus \<open>date - 1\<close>;
  \<open>date\<close> may be zero or negative, which is how the page steps back over month
  boundaries.  \<open>DayWithinYearOfMonth\<close> is the table behind \<open>MonthFromTime\<close>: the day
  within the year on which month \<open>m\<close> starts.
\<close>

definition DayWithinYearOfMonth :: "int \<Rightarrow> int \<Rightarrow> int" where
  "DayWithinYearOfMonth m l =
     (if m = 0 then 0
      else if m = 1 then 31
      else if m = 2 then 59 + l
      else if m = 3 then 90 + l
      else if m = 4 then 120 + l
      else if m = 5 then 151 + l
      else if m = 6 then 181 + l
      else if m = 7 then 212 + l
      else if m = 8 then 243 + l
      else if m = 9 then 273 + l
      else if m = 10 then 304 + l
      else 334 + l)"

definition MakeDay :: "int \<Rightarrow> int \<Rightarrow> int \<Rightarrow> int" where
  "MakeDay year month dt =
     (let ym = year + month div 12; mn = month mod 12;
          l = (if DaysInYear ym = 366 then 1 else 0)
      in DayFromYear ym + DayWithinYearOfMonth mn l + dt - 1)"

definition MakeDate :: "int \<Rightarrow> int \<Rightarrow> int" where
  "MakeDate day time = day * msPerDay + time"

definition TimeClip :: "int \<Rightarrow> int option" where
  "TimeClip t = (if \<bar>t\<bar> > 8640000000000000 then None else Some t)"

section \<open>Rendering: toISOString and split\<close>

datatype error = RangeError | TypeError

definition digit_char :: "int \<Rightarrow> char" where
  "digit_char d =
     (if d = 0 then CHR ''0''
      else if d = 1 then CHR ''1''
      else if d = 2 then CHR ''2''
      else if d = 3 then CHR ''3''
      else if d = 4 then CHR ''4''
      else if d = 5 then CHR ''5''
      else if d = 6 then CHR ''6''
      else if d = 7 then CHR ''7''
      else if d = 8 then CHR ''8''
      else CHR ''9'')"

definition pad2 :: "int \<Rightarrow> string" where
  "pad2 n = [digit_char (n div 10 mod 10), digit_char (n mod 10)]"

definition pad3 :: "int \<Rightarrow> string" where
  "pad3 n = [digit_char (n div 100 mod 10), digit_char (n div 10 mod 10), digit_char (n mod 10)]"

definition pad4 :: "int \<Rightarrow> string" where
  "pad4 n = [digit_char (n div 1000 mod 10), digit_char (n div 100 mod 10),
             digit_char (n div 10 mod 10), digit_char (n mod 10)]"

definition pad6 :: "int \<Rightarrow> string" where
  "pad6 n = [digit_char (n div 100000 mod 10), digit_char (n div 10000 mod 10),
             digit_char (n div 1000 mod 10), digit_char (n div 100 mod 10),
             digit_char (n div 10 mod 10), digit_char (n mod 10)]"

text \<open>
  The year of an ISO string has four digits for the years 0 to 9999 and a sign and six
  digits otherwise (the expanded years of ECMA-262).
\<close>

definition YearString :: "int \<Rightarrow> string" where
  "YearString y =
     (if 0 \<le> y \<and> y \<le> 9999 then pad4 y
      else (if y < 0 then CHR ''-'' else CHR ''+'') # pad6 \<bar>y\<bar>)"

definition DateString :: "int \<Rightarrow> string" where
  "DateString t =
     YearString (YearFromTime t) @ ''-'' @ pad2 (MonthFromTime t + 1) @ ''-'' @
     pad2 (DateFromTime t)"

definition TimeString :: "int \<Rightarrow> string" where
  "TimeString t =
     pad2 (HourFromTime t) @ '':'' @ pad2 (MinFromTime t) @ '':'' @ pad2 (SecFromTime t) @
     ''.'' @ pad3 (msFromTime t) @ ''Z''"

text \<open>\<^verbatim>\<open>toISOString\<close> throws a RangeError on an invalid date.\<close>

definition toISOString :: "int option \<Rightarrow> error + string" where
  "toISOString d =
     (case d of
        None \<Rightarrow> Inl RangeError
      | Some t \<Rightarrow> Inr (DateString t @ ''T'' @ TimeString t))"

text \<open>\<^verbatim>\<open>s.split('T')[0]\<close>: the text before the first \<^verbatim>\<open>T\<close>, all of \<open>s\<close> when it has none.\<close>

definition split_T_0 :: "string \<Rightarrow> string" where
  "split_T_0 s = takeWhile (\<lambda>c. c \<noteq> CHR ''T'') s"

text \<open>\<^verbatim>\<open>d.toISOString().split('T')[0]\<close>, the page's calendar-day key of a Date.\<close>

definition isoDay :: "int option \<Rightarrow> error + string" where
  "isoDay d = (case toISOString d of Inl e \<Rightarrow> Inl e | Inr s \<Rightarrow> Inr (split_T_0 s))"

section \<open>The runtime: clock, time zone, Date.parse, configuration\<close>

text \<open>
  What the page reads from its surroundings.  \<open>Date_now\<close> is the time value that
  \<^verbatim>\<open>new Date()\<close> returns.  \<open>LocalTZA_utc t\<close> is the offset in milliseconds of the
  process's time zone at the UTC time value \<open>t\<close>, and \<open>LocalTZA_local t\<close> the offset
  that the zone assigns to the local time value \<open>t\<close> (ECMA-262's \<open>LocalTime\<close> and
  \<open>UTC\<close> are defined from these).  \<open>Date_parse\<close> is \<^verbatim>\<open>Date.parse\<close>, \<open>None\<close> being NaN.
\<close>

record runtime =
  Date_now :: int
  LocalTZA_utc :: "int \<Rightarrow> int"
  LocalTZA_local :: "int \<Rightarrow> int"
  Date_parse :: "string \<Rightarrow> int option"
  NEXT_PUBLIC_BASE_URL :: string

definition LocalTime :: "runtime \<Rightarrow> int \<Rightarrow> int" where
  "LocalTime rt t = t + LocalTZA_utc rt t"

definition UTC :: "runtime \<Rightarrow> int \<Rightarrow> int" where
  "UTC rt t = t - LocalTZA_local rt t"

text \<open>\<^verbatim>\<open>getDate()\<close>: the day of the month, in local time.\<close>

definition getDate :: "runtime \<Rightarrow> int \<Rightarrow> int" where
  "getDate rt t = DateFromTime (LocalTime rt t)"

text \<open>
  \<^verbatim>\<open>setDate(dt)\<close>: the date's local time with its day of the month replaced by
  \<open>dt\<close>, converted back to UTC and clipped.  An invalid date stays invalid.
\<close>

definition setDate :: "runtime \<Rightarrow> int option \<Rightarrow> int \<Rightarrow> int option" where
  "setDate rt d dt =
     (case d of
        None \<Rightarrow> None
      | Some t \<Rightarrow>
          (let tl = LocalTime rt t;
               newDate = MakeDate (MakeDay (YearFromTime tl) (MonthFromTime tl) dt)
                                  (TimeWithinDay tl)
           in TimeClip (UTC rt newDate)))"

text \<open>
  The \<^verbatim>\<open>date\<close> field of a statistics sample as the page receives it: absent
  (\<^verbatim>\<open>undefined\<close>), \<^verbatim>\<open>null\<close>, or a string.  \<^verbatim>\<open>new Date(v)\<close> makes NaN of
  \<^verbatim>\<open>undefined\<close>, the epoch of \<^verbatim>\<open>null\<close>, and parses a string.
\<close>

datatype jsval = Undefined | Null | Str string

definition new_Date :: "runtime \<Rightarrow> jsval \<Rightarrow> int option" where
  "new_Date rt v =
     (case v of
        Undefined \<Rightarrow> None
      | Null \<Rightarrow> TimeClip 0
      | Str s \<Rightarrow> (case Date_parse rt s of None \<Rightarrow> None | Some t \<Rightarrow> TimeClip t))"

section \<open>The data of the page\<close>

record stat =
  date :: jsval
  views :: int

text \<open>
  A click count is a whole number held in a JavaScript Number, a double.  Whole numbers
  up to \<open>2 ^ 53\<close> in magnitude are doubles; the sum of two doubles is the exact sum
  rounded to the nearest double, to the one with the even significand when two are
  equally near, and an infinity when the rounded sum is beyond the largest double.
  \<open>round_to_double\<close> is this rounding on whole numbers: above \<open>2 ^ 53\<close> the doubles are
  the multiples of \<open>q\<close>, the power of two that leaves a significand of 53 bits.
\<close>

datatype number = Finite int | PosInfinity | NegInfinity

function bit_length :: "int \<Rightarrow> nat" where
  "bit_length n = (if n \<le> 0 then 0 else Suc (bit_length (n div 2)))"
  by pat_completeness auto
termination
  by (relation "measure nat") auto

definition round_to_double :: "int \<Rightarrow> number" where
  "round_to_double n =
     (let a = \<bar>n\<bar> in
      if a \<le> 9007199254740992 then Finite n
      else
        (let q = 2 ^ (bit_length a - 53);
             m = a div q;
             r = a mod q;
             m' = (if 2 * r > q \<or> (2 * r = q \<and> odd m) then m + 1 else m);
             v = m' * q
         in if v \<ge> 2 ^ 1024 then (if n < 0 then NegInfinity else PosInfinity)
            else Finite (if n < 0 then - v else v)))"

text \<open>\<^verbatim>\<open>acc + link.clicks\<close>: an infinite \<open>acc\<close> stays what it is.\<close>

definition add_Number :: "number \<Rightarrow> int \<Rightarrow> number" where
  "add_Number acc c =
     (case acc of
        Finite a \<Rightarrow> round_to_double (a + c)
      | PosInfinity \<Rightarrow> PosInfinity
      | NegInfinity \<Rightarrow> NegInfinity)"

record link =
  url :: string
  clicks :: int

text \<open>\<^verbatim>\<open>data\<close>, the result of \<^verbatim>\<open>getStats\<close>: \<^verbatim>\<open>data.links.individual\<close>,
  \<^verbatim>\<open>data.links.clicks\<close>, \<^verbatim>\<open>data.profile.daily\<close>, \<^verbatim>\<open>data.profile.monthly\<close> and
  \<^verbatim>\<open>data.profile.total\<close>.\<close>

record stats =
  links_individual :: "link list"
  links_clicks :: number
  profile_daily :: "stat list"
  profile_monthly :: int
  profile_total :: int

datatype item = Item

text \<open>The profile: each of the five sections is an array or absent.\<close>

record profile =
  links :: "link list option"
  milestones :: "item list option"
  tags :: "item list option"
  socials :: "item list option"
  testimonials :: "item list option"

record progress =
  percentage :: string
  missing :: "string list"

record props =
  data :: stats
  profile :: profile
  progress :: progress
  BASE_URL :: string

datatype page_result = Redirect string bool | Props props

section \<open>getServerSideProps\<close>

fun mapE :: "('a \<Rightarrow> error + 'b) \<Rightarrow> 'a list \<Rightarrow> error + 'b list" where
  "mapE f [] = Inr []"
| "mapE f (x # xs) =
     (case f x of
        Inl e \<Rightarrow> Inl e
      | Inr y \<Rightarrow> (case mapE f xs of Inl e \<Rightarrow> Inl e | Inr ys \<Rightarrow> Inr (y # ys)))"

subsection \<open>Lines 51-76: profile completeness\<close>

definition profileSections :: "string list" where
  "profileSections = [''links'', ''milestones'', ''tags'', ''socials'', ''testimonials'']"

text \<open>\<^verbatim>\<open>profile[property]?.length\<close>: \<open>None\<close> when the property is absent.\<close>

definition property_length :: "profile \<Rightarrow> string \<Rightarrow> nat option" where
  "property_length p property =
     (if property = ''links'' then map_option length (links p)
      else if property = ''milestones'' then map_option length (milestones p)
      else if property = ''tags'' then map_option length (tags p)
      else if property = ''socials'' then map_option length (socials p)
      else if property = ''testimonials'' then map_option length (testimonials p)
      else None)"

definition is_missing :: "profile \<Rightarrow> string \<Rightarrow> bool" where
  "is_missing p property =
     (case property_length p property of None \<Rightarrow> True | Some n \<Rightarrow> n = 0)"

fun decimal :: "nat \<Rightarrow> string" where
  "decimal n =
     (if n < 10 then [digit_char (int n)]
      else decimal (n div 10) @ [digit_char (int (n mod 10))])"

text \<open>
  \<^verbatim>\<open>x.toFixed(0)\<close>: the integer nearest to \<open>x\<close>, the larger one of two, in decimal.
  The page's \<open>x\<close> is a multiple of 20 between 0 and 100 computed in floating point;
  its rounding error is far below one half, so the exact quotient is used here.
\<close>

definition toFixed_0 :: "rat \<Rightarrow> string" where
  "toFixed_0 x =
     (if x < 0 then ''-'' @ decimal (nat \<lfloor>- x + 1 / 2\<rfloor>)
      else decimal (nat \<lfloor>x + 1 / 2\<rfloor>))"

definition compute_progress :: "profile \<Rightarrow> progress" where
  "compute_progress p =
     (let missing_sections = filter (is_missing p) profileSections
      in \<lparr> percentage =
             toFixed_0
               ((of_nat (length profileSections - length missing_sections)
                 / of_nat (length profileSections)) * 100),
           missing = missing_sections \<rparr>)"

subsection \<open>Lines 78-90: the links of the profile and their clicks\<close>

text \<open>
  \<^verbatim>\<open>profile.links.some(...)\<close> runs once for each entry of
  \<^verbatim>\<open>data.links.individual\<close>; with \<^verbatim>\<open>profile.links\<close> absent the first call throws a
  TypeError.
\<close>

definition filter_individual :: "profile \<Rightarrow> link list \<Rightarrow> error + link list" where
  "filter_individual p individual =
     (case individual of
        [] \<Rightarrow> Inr []
      | _ # _ \<Rightarrow>
          (case links p of
             None \<Rightarrow> Inl TypeError
           | Some pLinks \<Rightarrow>
               Inr (filter (\<lambda>l. list_ex (\<lambda>pLink. url pLink = url l) pLinks) individual)))"

definition totalClicks :: "link list \<Rightarrow> number" where
  "totalClicks individual = foldl (\<lambda>acc l. add_Number acc (clicks l)) (Finite 0) individual"

subsection \<open>Lines 82-85: the lookup of the samples by calendar day\<close>

definition stat_entry :: "runtime \<Rightarrow> stat \<Rightarrow> error + (string \<times> stat)" where
  "stat_entry rt s =
     (case isoDay (new_Date rt (date s)) of Inl e \<Rightarrow> Inl e | Inr k \<Rightarrow> Inr (k, s))"

text \<open>\<^verbatim>\<open>new Map(entries)\<close>: the entries are set in order, a later one replacing an
  earlier one with the same key.\<close>

definition new_Map :: "(string \<times> stat) list \<Rightarrow> (string \<rightharpoonup> stat)" where
  "new_Map entries = foldl (\<lambda>m (k, v). m(k \<mapsto> v)) Map.empty entries"

subsection \<open>Lines 92-97: the thirty days\<close>

definition window_day :: "runtime \<Rightarrow> int \<Rightarrow> int \<Rightarrow> error + string" where
  "window_day rt currentDate index =
     isoDay (setDate rt (TimeClip currentDate) (getDate rt currentDate - index))"

definition last30Days :: "runtime \<Rightarrow> error + string list" where
  "last30Days rt =
     (case mapE (window_day rt (Date_now rt)) (map int [0..<30]) of
        Inl e \<Rightarrow> Inl e
      | Inr days \<Rightarrow> Inr (rev days))"

subsection \<open>Lines 99-119: the normalized series\<close>

definition ensure_entries :: "(string \<rightharpoonup> stat) \<Rightarrow> string list \<Rightarrow> (string \<rightharpoonup> stat)" where
  "ensure_entries m days =
     foldl (\<lambda>m d. if m d = None then m(d \<mapsto> \<lparr> date = Str d, views = 0 \<rparr>) else m) m days"

definition last30DaysStats :: "(string \<rightharpoonup> stat) \<Rightarrow> string list \<Rightarrow> error + stat list" where
  "last30DaysStats m days =
     mapE (\<lambda>d. case m d of
                 None \<Rightarrow> Inl TypeError
               | Some s \<Rightarrow> Inr \<lparr> date = Str d, views = views s \<rparr>) days"

definition push_missing :: "(string \<rightharpoonup> stat) \<Rightarrow> string list \<Rightarrow> stat list \<Rightarrow> stat list" where
  "push_missing m days series =
     foldl (\<lambda>acc d. if m d = None then acc @ [\<lparr> date = Str d, views = 0 \<rparr>] else acc)
       series days"

subsection \<open>The whole function\<close>

text \<open>
  \<open>reshape\<close> is lines 50-128, after the session and the profile have been fetched.
  \<open>fetched\<close> is the outcome of \<^verbatim>\<open>getStats\<close>: when it throws, the page logs the error
  and goes on with \<^verbatim>\<open>data = {}\<close>, and reading \<^verbatim>\<open>data.links.individual\<close> throws a
  TypeError.
\<close>

definition reshape :: "runtime \<Rightarrow> profile \<Rightarrow> stats option \<Rightarrow> error + page_result" where
  "reshape rt p fetched =
     (let prog = compute_progress p in
      case fetched of
        None \<Rightarrow> Inl TypeError
      | Some d \<Rightarrow>
          (case filter_individual p (links_individual d) of
             Inl e \<Rightarrow> Inl e
           | Inr individual \<Rightarrow>
               (case mapE (stat_entry rt) (profile_daily d) of
                  Inl e \<Rightarrow> Inl e
                | Inr entries \<Rightarrow>
                    (let dailyStatsMap = new_Map entries;
                         total = totalClicks individual
                     in case last30Days rt of
                          Inl e \<Rightarrow> Inl e
                        | Inr days \<Rightarrow>
                            (let filled = ensure_entries dailyStatsMap days
                             in case last30DaysStats filled days of
                                  Inl e \<Rightarrow> Inl e
                                | Inr series \<Rightarrow>
                                    Inr (Props
                                      \<lparr> data = d \<lparr> links_individual := individual,
                                                   links_clicks := total,
                                                   profile_daily := push_missing filled days series \<rparr>,
                                        profile = p,
                                        progress = prog,
                                        BASE_URL = NEXT_PUBLIC_BASE_URL rt \<rparr>))))))"

text \<open>
  \<open>session\<close> is the user name of the session, if there is one; \<open>getUserApi\<close> returns
  the status and the profile; \<open>getStats\<close> returns \<open>None\<close> when it throws.
\<close>

definition getServerSideProps ::
  "runtime \<Rightarrow> string option \<Rightarrow> (string \<Rightarrow> nat \<times> profile) \<Rightarrow> (string \<Rightarrow> stats option)
     \<Rightarrow> error + page_result" where
  "getServerSideProps rt session getUserApi getStats =
     (case session of
        None \<Rightarrow> Inr (Redirect ''/auth/signin'' False)
      | Some username \<Rightarrow>
          (case getUserApi username of
             (status, p) \<Rightarrow>
               if status \<noteq> 200 then Inr (Redirect ''/account/no-profile'' False)
               else reshape rt p (getStats username)))"

section \<open>Example inputs\<close>

text \<open>
  Two runtimes.  \<open>utc_runtime\<close> is a process in the zone UTC whose clock reads
  2024-01-30T11:00:00Z, the day of the example in the specification; its
  \<open>Date.parse\<close> is given on the strings the examples use (a date-only string is read
  as midnight UTC).  \<open>berlin_runtime\<close> is a process in the zone Europe/Berlin during
  2026, with daylight saving time (UTC+2) from 2026-03-29T01:00Z to 2026-10-25T01:00Z and
  UTC+1 otherwise; its clock reads 2026-11-03T00:30:00Z, which is 01:30 local time, and
  \<open>berlin_noon\<close> is the same process at 2026-11-03T11:00:00Z.  A local time that the
  change of 2026-10-25 repeats is taken at its first occurrence and one that the change
  of 2026-03-29 skips at the offset before the change, as ECMA-262 has it.
\<close>

definition example_parse :: "string \<Rightarrow> int option" where
  "example_parse s =
     (if s = ''2024-01-29'' then Some 1706486400000
      else if s = ''2024-01-01'' then Some 1704067200000
      else if s = ''2023-12-25'' then Some 1703462400000
      else if s = ''2024-01-29T18:30:00.000Z'' then Some 1706553000000
      else None)"

definition utc_runtime :: runtime where
  "utc_runtime =
     \<lparr> Date_now = 1706612400000,
       LocalTZA_utc = (\<lambda>t. 0),
       LocalTZA_local = (\<lambda>t. 0),
       Date_parse = example_parse,
       NEXT_PUBLIC_BASE_URL = ''http://localhost:3000'' \<rparr>"

definition january_2024 :: "string list" where
  "january_2024 =
     [''2024-01-01'', ''2024-01-02'', ''2024-01-03'', ''2024-01-04'', ''2024-01-05'',
      ''2024-01-06'', ''2024-01-07'', ''2024-01-08'', ''2024-01-09'', ''2024-01-10'',
      ''2024-01-11'', ''2024-01-12'', ''2024-01-13'', ''2024-01-14'', ''2024-01-15'',
      ''2024-01-16'', ''2024-01-17'', ''2024-01-18'', ''2024-01-19'', ''2024-01-20'',
      ''2024-01-21'', ''2024-01-22'', ''2024-01-23'', ''2024-01-24'', ''2024-01-25'',
      ''2024-01-26'', ''2024-01-27'', ''2024-01-28'', ''2024-01-29'', ''2024-01-30'']"

definition example_profile :: profile where
  "example_profile =
     \<lparr> links = Some [\<lparr> url = ''https://github.com/alice'', clicks = 0 \<rparr>],
       milestones = None,
       tags = Some [Item],
       socials = Some [],
       testimonials = Some [Item, Item] \<rparr>"

definition example_daily :: "stat list" where
  "example_daily =
     [\<lparr> date = Str ''2024-01-29'', views = 5 \<rparr>,
      \<lparr> date = Str ''2024-01-01'', views = 9 \<rparr>,
      \<lparr> date = Str ''2024-01-29T18:30:00.000Z'', views = 7 \<rparr>,
      \<lparr> date = Str ''2023-12-25'', views = 4 \<rparr>]"

definition example_stats :: stats where
  "example_stats =
     \<lparr> links_individual =
         [\<lparr> url = ''https://github.com/alice'', clicks = 3 \<rparr>,
          \<lparr> url = ''https://old.example.com'', clicks = 4 \<rparr>],
       links_clicks = Finite 7,
       profile_daily = example_daily,
       profile_monthly = 25,
       profile_total = 100 \<rparr>"

definition example_series :: "stat list" where
  "example_series =
     map (\<lambda>k. \<lparr> date = Str k,
                views = (if k = ''2024-01-01'' then 9 else if k = ''2024-01-29'' then 7 else 0) \<rparr>)
       january_2024"

definition example_props :: props where
  "example_props =
     \<lparr> data = \<lparr> links_individual = [\<lparr> url = ''https://github.com/alice'', clicks = 3 \<rparr>],
                links_clicks = Finite 3,
                profile_daily = example_series,
                profile_monthly = 25,
                profile_total = 100 \<rparr>,
       profile = example_profile,
       progress = \<lparr> percentage = ''60'', missing = [''milestones'', ''socials''] \<rparr>,
       BASE_URL = ''http://localhost:3000'' \<rparr>"

text \<open>The example of the specification: two samples, on 2024-01-29 and on 2024-01-01.\<close>

definition specification_stats :: stats where
  "specification_stats =
     example_stats \<lparr> profile_daily := [\<lparr> date = Str ''2024-01-29'', views = 5 \<rparr>,
                                        \<lparr> date = Str ''2024-01-01'', views = 9 \<rparr>] \<rparr>"

definition with_series :: "stat list \<Rightarrow> props" where
  "with_series series = example_props \<lparr> data := (data example_props) \<lparr> profile_daily := series \<rparr> \<rparr>"

definition no_samples :: stats where
  "no_samples = example_stats \<lparr> profile_daily := [] \<rparr>"

definition zero_series :: "stat list" where
  "zero_series = map (\<lambda>k. \<lparr> date = Str k, views = 0 \<rparr>) january_2024"

definition null_date_stats :: stats where
  "null_date_stats = example_stats \<lparr> profile_daily := [\<lparr> date = Null, views = 7 \<rparr>] \<rparr>"

definition undefined_date_stats :: stats where
  "undefined_date_stats =
     example_stats \<lparr> profile_daily := [\<lparr> date = Str ''2024-01-29'', views = 5 \<rparr>,
                                        \<lparr> date = Undefined, views = 7 \<rparr>] \<rparr>"

definition many_clicks_stats :: stats where
  "many_clicks_stats =
     example_stats \<lparr> links_individual :=
       [\<lparr> url = ''https://github.com/alice'', clicks = 9007199254740992 \<rparr>,
        \<lparr> url = ''https://github.com/alice'', clicks = 1 \<rparr>,
        \<lparr> url = ''https://github.com/alice'', clicks = 1 \<rparr>] \<rparr>"

definition berlin_parse :: "string \<Rightarrow> int option" where
  "berlin_parse s =
     (if s = ''2026-10-25'' then Some 1792886400000
      else if s = ''2026-10-04'' then Some 1791072000000
      else None)"

definition berlin_runtime :: runtime where
  "berlin_runtime =
     \<lparr> Date_now = 1793665800000,
       LocalTZA_utc = (\<lambda>t. if 1774746000000 \<le> t \<and> t < 1792890000000 then 7200000 else 3600000),
       LocalTZA_local = (\<lambda>t. if 1774753200000 \<le> t \<and> t < 1792897200000 then 7200000 else 3600000),
       Date_parse = berlin_parse,
       NEXT_PUBLIC_BASE_URL = ''http://localhost:3000'' \<rparr>"

definition berlin_noon :: runtime where
  "berlin_noon = berlin_runtime \<lparr> Date_now := 1793703600000 \<rparr>"

definition berlin_days :: "string list" where
  "berlin_days =
     [''2026-10-04'', ''2026-10-05'', ''2026-10-06'', ''2026-10-07'', ''2026-10-08'',
      ''2026-10-09'', ''2026-10-10'', ''2026-10-11'', ''2026-10-12'', ''2026-10-13'',
      ''2026-10-14'', ''2026-10-15'', ''2026-10-16'', ''2026-10-17'', ''2026-10-18'',
      ''2026-10-19'', ''2026-10-20'', ''2026-10-21'', ''2026-10-22'', ''2026-10-23'',
      ''2026-10-24'', ''2026-10-26'', ''2026-10-27'', ''2026-10-28'', ''2026-10-29'',
      ''2026-10-30'', ''2026-10-31'', ''2026-11-01'', ''2026-11-02'', ''2026-11-03'']"

definition berlin_noon_days :: "string list" where
  "berlin_noon_days =
     [''2026-10-05'', ''2026-10-06'', ''2026-10-07'', ''2026-10-08'', ''2026-10-09'',
      ''2026-10-10'', ''2026-10-11'', ''2026-10-12'', ''2026-10-13'', ''2026-10-14'',
      ''2026-10-15'', ''2026-10-16'', ''2026-10-17'', ''2026-10-18'', ''2026-10-19'',
      ''2026-10-20'', ''2026-10-21'', ''2026-10-22'', ''2026-10-23'', ''2026-10-24'',
      ''2026-10-25'', ''2026-10-26'', ''2026-10-27'', ''2026-10-28'', ''2026-10-29'',
      ''2026-10-30'', ''2026-10-31'', ''2026-11-01'', ''2026-11-02'', ''2026-11-03'']"

definition berlin_stats :: stats where
  "berlin_stats =
     example_stats \<lparr> profile_daily := [\<lparr> date = Str ''2026-10-25'', views = 3 \<rparr>,
                                        \<lparr> date = Str ''2026-10-04'', views = 8 \<rparr>] \<rparr>"

definition berlin_sample_stats :: stats where
  "berlin_sample_stats =
     example_stats \<lparr> profile_daily := [\<lparr> date = Str ''2026-10-25'', views = 3 \<rparr>] \<rparr>"

definition berlin_early_stats :: stats where
  "berlin_early_stats =
     example_stats \<lparr> profile_daily := [\<lparr> date = Str ''2026-10-04'', views = 8 \<rparr>] \<rparr>"

definition berlin_early_series :: "stat list" where
  "berlin_early_series =
     map (\<lambda>k. \<lparr> date = Str k, views = (if k = ''2026-10-04'' then 8 else 0) \<rparr>) berlin_days"

section \<open>The calendar\<close>

subsection \<open>The year of a day\<close>

lemma div_lo: "0 < k \<Longrightarrow> k * (x div k) \<le> (x::int)"
  using mult_div_mod_eq[of k x] pos_mod_sign[of k x] by linarith

lemma div_hi: "0 < k \<Longrightarrow> (x::int) < k * (x div k) + k"
  using mult_div_mod_eq[of k x] pos_mod_bound[of k x] by linarith

lemma DayFromYear_alt:
  "DayFromYear y =
     365 * y - 719050 + (y - 1969) div 4 - (y - 1901) div 100 + (y - 1601) div 400"
  unfolding DayFromYear_def by simp

lemma day_bound_upper:
  fixes y :: int
  shows "4 * a \<le> y - 1969 \<Longrightarrow> y - 1901 < 100 * b + 100 \<Longrightarrow> 400 * c \<le> y - 1601 \<Longrightarrow>
    d = 365 * y - 719050 + a - b + c \<Longrightarrow> 400 * d \<le> 146097 * y - 287810501"
  by linarith

lemma day_bound_lower:
  fixes y :: int
  shows "y - 1969 < 4 * a + 4 \<Longrightarrow> 100 * b \<le> y - 1901 \<Longrightarrow> y - 1601 < 400 * c + 400 \<Longrightarrow>
    d = 365 * y - 719050 + a - b + c \<Longrightarrow> 146097 * y - 287811596 \<le> 400 * d"
  by linarith

lemma DayFromYear_upper: "400 * DayFromYear y \<le> 146097 * y - 287810501"
  by (rule day_bound_upper[OF _ _ _ DayFromYear_alt]) (simp_all add: div_lo div_hi)

lemma DayFromYear_lower: "146097 * y - 287811596 \<le> 400 * DayFromYear y"
  by (rule day_bound_lower[OF _ _ _ DayFromYear_alt]) (simp_all add: div_lo div_hi)

lemma estimate_lower: "DayFromYear (1970 + (400 * d) div 146097 - 1) \<le> d"
proof -
  define q where "q = (400 * d) div 146097"
  define y where "y = 1970 + q - 1"
  have q: "146097 * q \<le> 400 * d" unfolding q_def by (rule div_lo) simp
  have "400 * DayFromYear y \<le> 146097 * y - 287810501"
    by (rule DayFromYear_upper)
  moreover have "y = q + 1969" unfolding y_def by simp
  ultimately have "DayFromYear y \<le> d" using q by linarith
  then show ?thesis unfolding y_def q_def .
qed

lemma estimate_upper: "d < DayFromYear (1970 + (400 * d) div 146097 + 2)"
proof -
  define q where "q = (400 * d) div 146097"
  define y where "y = 1970 + q + 2"
  have q: "400 * d < 146097 * q + 146097" unfolding q_def by (rule div_hi) simp
  have "146097 * y - 287811596 \<le> 400 * DayFromYear y"
    by (rule DayFromYear_lower)
  moreover have "y = q + 1972" unfolding y_def by simp
  ultimately have "d < DayFromYear y" using q by linarith
  then show ?thesis unfolding y_def q_def .
qed

lemma YearFromTime_lower: "DayFromYear (YearFromTime t) \<le> Day t"
  using estimate_lower[of "Day t"]
  by (simp add: YearFromTime_def Let_def)

lemma YearFromTime_upper: "Day t < DayFromYear (YearFromTime t + 1)"
  using estimate_upper[of "Day t"]
  by (simp add: YearFromTime_def Let_def add.commute add.left_commute)

lemma div_succ:
  fixes x k :: int
  assumes "0 < k"
  shows "(x + 1) div k = x div k + (if (x + 1) mod k = 0 then 1 else 0)"
proof (cases "x mod k + 1 = k")
  case True
  have e: "k * (x div k) + x mod k = x" by simp
  have "x + 1 = k * (x div k) + k" using e True by linarith
  then have f: "x + 1 = k * (x div k + 1) + 0" by (simp add: distrib_left)
  have "(x + 1) div k = x div k + 1"
    by (rule int_div_pos_eq[OF f]) (use assms in simp_all)
  moreover have "(x + 1) mod k = 0"
    by (rule int_mod_pos_eq[OF f]) (use assms in simp_all)
  ultimately show ?thesis by simp
next
  case False
  have r0: "0 \<le> x mod k + 1" using assms pos_mod_sign[of k x] by linarith
  have "x mod k < k" using assms by simp
  with False have r1: "x mod k + 1 < k" by linarith
  have e: "k * (x div k) + x mod k = x" by simp
  have f: "x + 1 = k * (x div k) + (x mod k + 1)" using e by linarith
  have "(x + 1) div k = x div k"
    by (rule int_div_pos_eq[OF f r0 r1])
  moreover have "(x + 1) mod k = x mod k + 1"
    by (rule int_mod_pos_eq[OF f r0 r1])
  moreover have "x mod k + 1 \<noteq> 0" using assms pos_mod_sign[of k x] by linarith
  ultimately show ?thesis by simp
qed

lemma mod_minus_multiple:
  fixes y k :: int
  shows "(y - k * c) mod k = y mod k"
proof -
  have "y - k * c = y + k * (- c)" by simp
  then show ?thesis by (simp only: mod_mult_self2)
qed

lemma year_mod_4: "(y - 1968) mod 4 = (y::int) mod 4"
  using mod_minus_multiple[of y 4 492] by simp

lemma year_mod_100: "(y - 1900) mod 100 = (y::int) mod 100"
  using mod_minus_multiple[of y 100 19] by simp

lemma year_mod_400: "(y - 1600) mod 400 = (y::int) mod 400"
  using mod_minus_multiple[of y 400 4] by simp

lemma mod_100_mod_4: "(y::int) mod 100 = 0 \<Longrightarrow> y mod 4 = 0"
proof -
  assume "y mod 100 = 0"
  then have "100 dvd y" by (simp add: mod_eq_0_iff_dvd)
  moreover have "(4::int) dvd 100" by simp
  ultimately have "4 dvd y" by (rule dvd_trans[rotated])
  then show ?thesis by (simp add: mod_eq_0_iff_dvd)
qed

lemma mod_400_mod_100: "(y::int) mod 400 = 0 \<Longrightarrow> y mod 100 = 0"
proof -
  assume "y mod 400 = 0"
  then have "400 dvd y" by (simp add: mod_eq_0_iff_dvd)
  moreover have "(100::int) dvd 400" by simp
  ultimately have "100 dvd y" by (rule dvd_trans[rotated])
  then show ?thesis by (simp add: mod_eq_0_iff_dvd)
qed

lemma DayFromYear_step: "DayFromYear (y + 1) = DayFromYear y + DaysInYear y"
proof -
  have a: "(y + 1 - 1969) div 4 = (y - 1969) div 4 + (if y mod 4 = 0 then 1 else 0)"
    using div_succ[of 4 "y - 1969"] year_mod_4[of y] by (simp add: algebra_simps)
  have b: "(y + 1 - 1901) div 100 = (y - 1901) div 100 + (if y mod 100 = 0 then 1 else 0)"
    using div_succ[of 100 "y - 1901"] year_mod_100[of y] by (simp add: algebra_simps)
  have c: "(y + 1 - 1601) div 400 = (y - 1601) div 400 + (if y mod 400 = 0 then 1 else 0)"
    using div_succ[of 400 "y - 1601"] year_mod_400[of y] by (simp add: algebra_simps)
  show ?thesis
    unfolding DayFromYear_def DaysInYear_def a b c
    using mod_100_mod_4[of y] mod_400_mod_100[of y] by auto
qed

lemma DaysInYear_pos: "0 < DaysInYear y"
  by (simp add: DaysInYear_def)

lemma DayFromYear_mono:
  assumes "y \<le> y'"
  shows "DayFromYear y \<le> DayFromYear y'"
  using assms
proof (induction y' rule: int_ge_induct)
  case base
  show ?case by simp
next
  case (step i)
  then show ?case
    using DaysInYear_pos[of i] by (simp add: DayFromYear_step)
qed

text \<open>\<open>YearFromTime t\<close> is the only year whose days contain the day of \<open>t\<close>.\<close>

lemma YearFromTime_unique:
  assumes lo: "DayFromYear y \<le> Day t" and hi: "Day t < DayFromYear (y + 1)"
  shows "YearFromTime t = y"
proof (rule ccontr)
  assume ne: "YearFromTime t \<noteq> y"
  show False
  proof (cases "YearFromTime t < y")
    case True
    then have "DayFromYear (YearFromTime t + 1) \<le> DayFromYear y"
      by (intro DayFromYear_mono) simp
    with lo YearFromTime_upper[of t] show False by linarith
  next
    case False
    with ne have "DayFromYear (y + 1) \<le> DayFromYear (YearFromTime t)"
      by (intro DayFromYear_mono) simp
    with hi YearFromTime_lower[of t] show False by linarith
  qed
qed

lemma YearFromTime_Day: "Day t = Day t' \<Longrightarrow> YearFromTime t = YearFromTime t'"
  by (simp add: YearFromTime_def)

lemma valid_Day:
  assumes "\<bar>t\<bar> \<le> 8640000000000000"
  shows "\<bar>Day t\<bar> \<le> 100000000"
proof -
  have "t div 86400000 \<le> 8640000000000000 div 86400000"
    by (rule zdiv_mono1) (use assms in simp_all)
  moreover have "(- 8640000000000000) div 86400000 \<le> t div 86400000"
    by (rule zdiv_mono1) (use assms in simp_all)
  ultimately show ?thesis
    by (simp add: Day_def msPerDay_def)
qed

lemma YearFromTime_bound:
  assumes "\<bar>Day t\<bar> \<le> 100000000"
  shows "\<bar>YearFromTime t\<bar> < 1000000"
proof -
  define y where "y = YearFromTime t"
  define z where "z = y + 1"
  have lo: "DayFromYear y \<le> Day t"
    unfolding y_def by (rule YearFromTime_lower)
  have hi: "Day t < DayFromYear z"
    unfolding z_def y_def by (rule YearFromTime_upper)
  have "146097 * y - 287811596 \<le> 400 * DayFromYear y"
    by (rule DayFromYear_lower)
  moreover have "400 * DayFromYear z \<le> 146097 * z - 287810501"
    by (rule DayFromYear_upper)
  moreover have "z = y + 1" by (rule z_def)
  ultimately have "\<bar>y\<bar> < 1000000"
    using lo hi assms by linarith
  then show ?thesis by (simp add: y_def)
qed

subsection \<open>Month and date\<close>

lemma DayWithinYear_range: "0 \<le> DayWithinYear t \<and> DayWithinYear t < 365 + InLeapYear t"
proof -
  have "Day t < DayFromYear (YearFromTime t) + DaysInYear (YearFromTime t)"
    using YearFromTime_upper[of t] by (simp add: DayFromYear_step)
  moreover have "DaysInYear (YearFromTime t) = 365 + InLeapYear t"
    by (simp add: InLeapYear_def DaysInYear_def)
  ultimately show ?thesis
    using YearFromTime_lower[of t] by (simp add: DayWithinYear_def)
qed

lemma InLeapYear_range: "InLeapYear t = 0 \<or> InLeapYear t = 1"
  by (simp add: InLeapYear_def)

lemma MonthFromTime_range: "0 \<le> MonthFromTime t \<and> MonthFromTime t \<le> 11"
  by (simp add: MonthFromTime_def Let_def)

lemma DateFromTime_eq:
  "DateFromTime t =
     DayWithinYear t - DayWithinYearOfMonth (MonthFromTime t) (InLeapYear t) + 1"
  by (simp add: DateFromTime_def DayWithinYearOfMonth_def Let_def)

lemma DateFromTime_range: "1 \<le> DateFromTime t \<and> DateFromTime t \<le> 31"
  using DayWithinYear_range[of t] InLeapYear_range[of t]
  unfolding DateFromTime_def MonthFromTime_def Let_def
  by (auto split: if_splits)

lemma Day_from_fields:
  "Day t = DayFromYear (YearFromTime t)
           + DayWithinYearOfMonth (MonthFromTime t) (if DaysInYear (YearFromTime t) = 366 then 1 else 0)
           + DateFromTime t - 1"
  unfolding DateFromTime_eq by (simp add: DayWithinYear_def InLeapYear_def)

lemma Day_minus_days: "Day (t - i * msPerDay) = Day t - i"
  by (simp add: Day_def msPerDay_def)

lemma Day_of_day: "Day (n * msPerDay) = n"
  by (simp add: Day_def msPerDay_def)

subsection \<open>MakeDay, getDate and setDate\<close>

lemma MakeDay_same_month:
  "MakeDay (YearFromTime t) (MonthFromTime t) dt = Day t - DateFromTime t + dt"
proof -
  have d: "MonthFromTime t div 12 = 0" and m: "MonthFromTime t mod 12 = MonthFromTime t"
    using MonthFromTime_range[of t] by simp_all
  show ?thesis
    unfolding MakeDay_def Let_def d m DateFromTime_eq
    by (simp add: DayWithinYear_def InLeapYear_def)
qed

text \<open>
  \<open>MakeDay\<close> meets its definition in ECMA-262: \<open>MakeDay year month 1\<close> is the day of a
  time value with the year \<open>year + month div 12\<close>, the month \<open>month mod 12\<close> and the
  date 1.
\<close>

lemma MakeDay_first_of_month:
  fixes year month :: int
  defines "t \<equiv> MakeDay year month 1 * msPerDay"
  shows "YearFromTime t = year + month div 12 \<and> MonthFromTime t = month mod 12 \<and>
         DateFromTime t = 1"
proof -
  define ym where "ym = year + month div 12"
  define mn where "mn = month mod 12"
  define l :: int where "l = (if DaysInYear ym = 366 then 1 else 0)"
  have mn: "0 \<le> mn" "mn \<le> 11" by (simp_all add: mn_def)
  have l: "l = 0 \<or> l = 1" by (simp add: l_def)
  have days: "DaysInYear ym = 365 + l"
    by (simp add: l_def DaysInYear_def)
  have day: "Day t = DayFromYear ym + DayWithinYearOfMonth mn l"
    by (simp add: t_def MakeDay_def Let_def Day_of_day ym_def mn_def l_def)
  have start: "0 \<le> DayWithinYearOfMonth mn l \<and> DayWithinYearOfMonth mn l < 365 + l"
    using mn l by (auto simp: DayWithinYearOfMonth_def)
  have y: "YearFromTime t = ym"
    by (rule YearFromTime_unique) (use start in \<open>simp_all add: day DayFromYear_step days\<close>)
  have leap: "InLeapYear t = l"
    by (simp add: InLeapYear_def y l_def)
  have dwy: "DayWithinYear t = DayWithinYearOfMonth mn l"
    by (simp add: DayWithinYear_def y day)
  have mcases: "mn = 0 \<or> mn = 1 \<or> mn = 2 \<or> mn = 3 \<or> mn = 4 \<or> mn = 5 \<or> mn = 6 \<or>
      mn = 7 \<or> mn = 8 \<or> mn = 9 \<or> mn = 10 \<or> mn = 11"
    using mn by arith
  have m: "MonthFromTime t = mn"
    unfolding MonthFromTime_def Let_def leap dwy
    using mcases l by (elim disjE) (simp_all add: DayWithinYearOfMonth_def)
  have "DateFromTime t = 1"
    unfolding DateFromTime_eq m leap dwy by simp
  with y m show ?thesis by (simp add: ym_def mn_def)
qed

lemma MakeDate_Day: "MakeDate (Day t - i) (TimeWithinDay t) = t - i * msPerDay"
proof -
  have "t div msPerDay * msPerDay + t mod msPerDay = t" by simp
  then show ?thesis
    by (simp add: MakeDate_def Day_def TimeWithinDay_def algebra_simps)
qed

text \<open>Line 95 sets the date back by \<open>index\<close> days of local time, at the same local time of day.\<close>

lemma setDate_getDate:
  "setDate rt (Some t) (getDate rt t - i) = TimeClip (UTC rt (LocalTime rt t - i * msPerDay))"
  by (simp add: setDate_def getDate_def Let_def MakeDay_same_month MakeDate_Day)

section \<open>The calendar-day key\<close>

lemma digit_char_not_T: "digit_char d \<noteq> CHR ''T''" "CHR ''T'' \<noteq> digit_char d"
  by (simp_all add: digit_char_def)

lemma YearString_no_T: "CHR ''T'' \<notin> set (YearString y)"
  by (simp add: YearString_def pad4_def pad6_def digit_char_not_T)

lemma DateString_no_T: "CHR ''T'' \<notin> set (DateString t)"
  by (simp add: DateString_def YearString_no_T pad2_def digit_char_not_T)

lemma split_T_0_ISO: "split_T_0 (DateString t @ CHR ''T'' # rest) = DateString t"
proof -
  have "takeWhile (\<lambda>c. c \<noteq> CHR ''T'') (DateString t @ CHR ''T'' # rest)
        = DateString t @ takeWhile (\<lambda>c. c \<noteq> CHR ''T'') (CHR ''T'' # rest)"
    by (rule takeWhile_append2) (use DateString_no_T[of t] in auto)
  then show ?thesis by (simp add: split_T_0_def)
qed

lemma isoDay_None: "isoDay None = Inl RangeError"
  by (simp add: isoDay_def toISOString_def)

lemma isoDay_Some: "isoDay (Some t) = Inr (split_T_0 (DateString t @ ''T'' @ TimeString t))"
  by (simp add: isoDay_def toISOString_def)

lemma isoDay_valid: "isoDay (Some t) = Inr (DateString t)"
  by (simp add: isoDay_def toISOString_def split_T_0_ISO)

lemma DateString_Day:
  assumes "Day t = Day t'"
  shows "DateString t = DateString t'"
proof -
  have y: "YearFromTime t = YearFromTime t'"
    by (rule YearFromTime_Day[OF assms])
  have l: "InLeapYear t = InLeapYear t'"
    by (simp add: InLeapYear_def y)
  have d: "DayWithinYear t = DayWithinYear t'"
    by (simp add: DayWithinYear_def y assms)
  have m: "MonthFromTime t = MonthFromTime t'"
    by (simp add: MonthFromTime_def l d)
  have "DateFromTime t = DateFromTime t'"
    by (simp add: DateFromTime_def l d m)
  with y m show ?thesis
    by (simp add: DateString_def)
qed

subsection \<open>The key determines the day\<close>

lemma digit_char_code:
  assumes "0 \<le> d" and "d \<le> 9"
  shows "(of_char (digit_char d) :: int) = 48 + d"
proof -
  have "d = 0 \<or> d = 1 \<or> d = 2 \<or> d = 3 \<or> d = 4 \<or> d = 5 \<or> d = 6 \<or> d = 7 \<or> d = 8 \<or> d = 9"
    using assms by arith
  then show ?thesis
    by (elim disjE) (simp_all add: digit_char_def)
qed

lemma digit_char_inj:
  assumes "0 \<le> a" "a \<le> 9" "0 \<le> b" "b \<le> 9" "digit_char a = digit_char b"
  shows "a = b"
proof -
  have "(of_char (digit_char a) :: int) = of_char (digit_char b)"
    using assms(5) by simp
  then show ?thesis
    using digit_char_code[OF assms(1,2)] digit_char_code[OF assms(3,4)] by simp
qed

lemma digit_mod_inj:
  fixes a b :: int
  assumes "digit_char (a mod 10) = digit_char (b mod 10)"
  shows "a mod 10 = b mod 10"
  by (rule digit_char_inj[OF _ _ _ _ assms]) simp_all

lemma div_mod_10_eq:
  fixes a b :: int
  assumes "a mod 10 = b mod 10" and "a div 10 = b div 10"
  shows "a = b"
  using assms by (metis div_mult_mod_eq)

lemma small_mod_10:
  fixes a b :: int
  assumes "0 \<le> a" "a < 10" "0 \<le> b" "b < 10" "a mod 10 = b mod 10"
  shows "a = b"
  using assms by simp

lemma pad2_inj:
  assumes a: "0 \<le> a" "a < 100" and b: "0 \<le> b" "b < 100" and eq: "pad2 a = pad2 b"
  shows "a = b"
proof -
  have d1: "a div 10 mod 10 = b div 10 mod 10" and d0: "a mod 10 = b mod 10"
    using eq by (auto simp: pad2_def intro: digit_mod_inj)
  have "a div 10 = b div 10"
    by (rule small_mod_10[OF _ _ _ _ d1]) (use a b in simp_all)
  with d0 show ?thesis by (rule div_mod_10_eq)
qed

lemma pad4_inj:
  assumes a: "0 \<le> a" "a < 10000" and b: "0 \<le> b" "b < 10000" and eq: "pad4 a = pad4 b"
  shows "a = b"
proof -
  have d3: "a div 1000 mod 10 = b div 1000 mod 10"
    and d2: "a div 100 mod 10 = b div 100 mod 10"
    and d1: "a div 10 mod 10 = b div 10 mod 10"
    and d0: "a mod 10 = b mod 10"
    using eq by (auto simp: pad4_def intro: digit_mod_inj)
  have e3: "a div 1000 = b div 1000"
    by (rule small_mod_10[OF _ _ _ _ d3]) (use a b in simp_all)
  have "a div 100 div 10 = b div 100 div 10"
    using e3 by (simp add: zdiv_zmult2_eq[symmetric])
  with d2 have e2: "a div 100 = b div 100" by (rule div_mod_10_eq)
  have "a div 10 div 10 = b div 10 div 10"
    using e2 by (simp add: zdiv_zmult2_eq[symmetric])
  with d1 have e1: "a div 10 = b div 10" by (rule div_mod_10_eq)
  with d0 show ?thesis by (rule div_mod_10_eq)
qed

lemma pad6_inj:
  assumes a: "0 \<le> a" "a < 1000000" and b: "0 \<le> b" "b < 1000000" and eq: "pad6 a = pad6 b"
  shows "a = b"
proof -
  have d5: "a div 100000 mod 10 = b div 100000 mod 10"
    and d4: "a div 10000 mod 10 = b div 10000 mod 10"
    and d3: "a div 1000 mod 10 = b div 1000 mod 10"
    and d2: "a div 100 mod 10 = b div 100 mod 10"
    and d1: "a div 10 mod 10 = b div 10 mod 10"
    and d0: "a mod 10 = b mod 10"
    using eq by (auto simp: pad6_def intro: digit_mod_inj)
  have e5: "a div 100000 = b div 100000"
    by (rule small_mod_10[OF _ _ _ _ d5]) (use a b in simp_all)
  have "a div 10000 div 10 = b div 10000 div 10"
    using e5 by (simp add: zdiv_zmult2_eq[symmetric])
  with d4 have e4: "a div 10000 = b div 10000" by (rule div_mod_10_eq)
  have "a div 1000 div 10 = b div 1000 div 10"
    using e4 by (simp add: zdiv_zmult2_eq[symmetric])
  with d3 have e3: "a div 1000 = b div 1000" by (rule div_mod_10_eq)
  have "a div 100 div 10 = b div 100 div 10"
    using e3 by (simp add: zdiv_zmult2_eq[symmetric])
  with d2 have e2: "a div 100 = b div 100" by (rule div_mod_10_eq)
  have "a div 10 div 10 = b div 10 div 10"
    using e2 by (simp add: zdiv_zmult2_eq[symmetric])
  with d1 have e1: "a div 10 = b div 10" by (rule div_mod_10_eq)
  with d0 show ?thesis by (rule div_mod_10_eq)
qed

lemma digit_char_not_sign: "digit_char d \<noteq> CHR ''-''" "digit_char d \<noteq> CHR ''+''"
  by (simp_all add: digit_char_def)

lemma YearString_inj:
  assumes a: "\<bar>a\<bar> < 1000000" and b: "\<bar>b\<bar> < 1000000" and eq: "YearString a = YearString b"
  shows "a = b"
proof -
  have len: "length (YearString y) = (if 0 \<le> y \<and> y \<le> 9999 then 4 else 7)" for y
    by (simp add: YearString_def pad4_def pad6_def)
  have "length (YearString a) = length (YearString b)"
    using eq by simp
  then consider (short) "0 \<le> a \<and> a \<le> 9999" "0 \<le> b \<and> b \<le> 9999"
    | (long) "\<not> (0 \<le> a \<and> a \<le> 9999)" "\<not> (0 \<le> b \<and> b \<le> 9999)"
    unfolding len by (cases "0 \<le> a \<and> a \<le> 9999"; cases "0 \<le> b \<and> b \<le> 9999") simp_all
  then show ?thesis
  proof cases
    case short
    then have "pad4 a = pad4 b" using eq by (simp add: YearString_def)
    then show ?thesis by (rule pad4_inj[rotated 4]) (use short in simp_all)
  next
    case long
    have ya: "YearString a = (if a < 0 then CHR ''-'' else CHR ''+'') # pad6 \<bar>a\<bar>"
      unfolding YearString_def by (rule if_not_P[OF long(1)])
    have yb: "YearString b = (if b < 0 then CHR ''-'' else CHR ''+'') # pad6 \<bar>b\<bar>"
      unfolding YearString_def by (rule if_not_P[OF long(2)])
    have s: "(if a < 0 then CHR ''-'' else CHR ''+'') = (if b < 0 then CHR ''-'' else CHR ''+'')"
      and p: "pad6 \<bar>a\<bar> = pad6 \<bar>b\<bar>"
      using eq unfolding ya yb by simp_all
    have sign: "a < 0 \<longleftrightarrow> b < 0"
      using s by (auto split: if_splits)
    have "\<bar>a\<bar> = \<bar>b\<bar>"
      by (rule pad6_inj[OF _ _ _ _ p]) (use a b in simp_all)
    with sign show ?thesis by linarith
  qed
qed

lemma DateString_parts:
  "DateString t =
     YearString (YearFromTime t) @
     (CHR ''-'' # pad2 (MonthFromTime t + 1) @ CHR ''-'' # pad2 (DateFromTime t))"
  by (simp add: DateString_def)

text \<open>Within the range of time values, the date text of a day determines the day.\<close>

lemma DateString_inj:
  assumes a: "\<bar>Day a\<bar> \<le> 100000000" and b: "\<bar>Day b\<bar> \<le> 100000000"
    and eq: "DateString a = DateString b"
  shows "Day a = Day b"
proof -
  have "YearString (YearFromTime a) = YearString (YearFromTime b) \<and>
        CHR ''-'' # pad2 (MonthFromTime a + 1) @ CHR ''-'' # pad2 (DateFromTime a)
        = CHR ''-'' # pad2 (MonthFromTime b + 1) @ CHR ''-'' # pad2 (DateFromTime b)"
    using eq unfolding DateString_parts
    by (subst (asm) append_eq_append_conv) (simp_all add: pad2_def)
  then have ys: "YearString (YearFromTime a) = YearString (YearFromTime b)"
    and ms: "pad2 (MonthFromTime a + 1) = pad2 (MonthFromTime b + 1)"
    and ds: "pad2 (DateFromTime a) = pad2 (DateFromTime b)"
    by (simp_all add: pad2_def)
  have y: "YearFromTime a = YearFromTime b"
    by (rule YearString_inj[OF YearFromTime_bound[OF a] YearFromTime_bound[OF b] ys])
  have "MonthFromTime a + 1 = MonthFromTime b + 1"
    by (rule pad2_inj[OF _ _ _ _ ms])
       (use MonthFromTime_range[of a] MonthFromTime_range[of b] in simp_all)
  then have m: "MonthFromTime a = MonthFromTime b" by simp
  have d: "DateFromTime a = DateFromTime b"
    by (rule pad2_inj[OF _ _ _ _ ds])
       (use DateFromTime_range[of a] DateFromTime_range[of b] in simp_all)
  show ?thesis
    using Day_from_fields[of a] Day_from_fields[of b] by (simp add: y m d)
qed

lemma DateString_days_inj:
  assumes "\<bar>m\<bar> \<le> 100000000" "\<bar>n\<bar> \<le> 100000000"
    and "DateString (m * msPerDay) = DateString (n * msPerDay)"
  shows "m = n"
  using DateString_inj[of "m * msPerDay" "n * msPerDay"] assms
  by (simp add: Day_of_day)

lemma thirty_days_distinct:
  assumes "\<bar>D\<bar> \<le> 100000000" and "\<bar>D - 29\<bar> \<le> 100000000"
  shows "distinct (map (\<lambda>n. DateString (n * msPerDay)) [D - 29 .. D])"
proof -
  have "inj_on (\<lambda>n. DateString (n * msPerDay)) (set [D - 29 .. D])"
  proof (rule inj_onI)
    fix m n
    assume m: "m \<in> set [D - 29 .. D]" and n: "n \<in> set [D - 29 .. D]"
      and eq: "DateString (m * msPerDay) = DateString (n * msPerDay)"
    have "\<bar>m\<bar> \<le> 100000000" "\<bar>n\<bar> \<le> 100000000"
      using m n assms by auto
    then show "m = n" using eq by (rule DateString_days_inj)
  qed
  then show ?thesis by (simp add: distinct_map)
qed

section \<open>Sequencing, the lookup and the series\<close>

lemma mapE_map: "(\<And>x. x \<in> set xs \<Longrightarrow> f x = Inr (g x)) \<Longrightarrow> mapE f xs = Inr (map g xs)"
  by (induction xs) simp_all

lemma mapE_Inr_map:
  "mapE f xs = Inr ys \<Longrightarrow> map f xs = map Inr ys"
proof (induction xs arbitrary: ys)
  case Nil
  then show ?case by simp
next
  case (Cons x xs)
  then show ?case by (auto split: sum.splits)
qed

lemma mapE_Inr_length: "mapE f xs = Inr ys \<Longrightarrow> length ys = length xs"
  using mapE_Inr_map[of f xs ys] by (metis length_map)

lemma mapE_Inl: "mapE f xs = Inl e \<Longrightarrow> \<exists>x\<in>set xs. f x = Inl e"
  by (induction xs) (auto split: sum.splits)

lemma mapE_Inl_intro: "x \<in> set xs \<Longrightarrow> f x = Inl e \<Longrightarrow> \<exists>e'. mapE f xs = Inl e'"
  by (induction xs) (auto split: sum.splits)

lemma mapE_total:
  "(\<And>x. x \<in> set xs \<Longrightarrow> \<exists>y. f x = Inr y) \<Longrightarrow> \<exists>ys. mapE f xs = Inr ys"
proof (induction xs)
  case Nil
  then show ?case by simp
next
  case (Cons x xs)
  obtain y where y: "f x = Inr y"
    using Cons.prems[of x] by auto
  have "\<exists>ys. mapE f xs = Inr ys"
    by (rule Cons.IH) (simp add: Cons.prems)
  then obtain ys where "mapE f xs = Inr ys" ..
  with y show ?case by simp
qed

lemma mapE_append_Cons:
  "mapE f (xs @ x # ys) = Inr zs \<Longrightarrow>
   \<exists>as b bs. zs = as @ b # bs \<and> mapE f xs = Inr as \<and> f x = Inr b \<and> mapE f ys = Inr bs"
proof (induction xs arbitrary: zs)
  case Nil
  then show ?case by (auto split: sum.splits)
next
  case (Cons a xs)
  from Cons.prems obtain y rest where y: "f a = Inr y" "mapE f (xs @ x # ys) = Inr rest" "zs = y # rest"
    by (auto split: sum.splits)
  from Cons.IH[OF y(2)] obtain as b bs where
    "rest = as @ b # bs" "mapE f xs = Inr as" "f x = Inr b" "mapE f ys = Inr bs"
    by blast
  with y show ?case
    by (intro exI[of _ "y # as"] exI[of _ b] exI[of _ bs]) simp
qed

lemma mapE_Inr_mem:
  assumes "mapE f ys = Inr bs" and "b \<in> set bs"
  shows "\<exists>y\<in>set ys. f y = Inr b"
proof -
  have "Inr b \<in> set (map Inr bs)" using assms(2) by simp
  then have "Inr b \<in> set (map f ys)" using mapE_Inr_map[OF assms(1)] by simp
  then show ?thesis by auto
qed

lemma mapE_filter:
  assumes "mapE f xs = Inr es"
    and "\<And>x e. x \<in> set xs \<Longrightarrow> f x = Inr e \<Longrightarrow> Q x = Q' e"
  shows "mapE f (filter Q xs) = Inr (filter Q' es)"
  using assms
proof (induction xs arbitrary: es)
  case Nil
  then show ?case by simp
next
  case (Cons x xs)
  from Cons.prems(1) obtain y ys where y: "f x = Inr y" "mapE f xs = Inr ys" "es = y # ys"
    by (auto split: sum.splits)
  have ih: "mapE f (filter Q xs) = Inr (filter Q' ys)"
    by (rule Cons.IH[OF y(2)]) (simp add: Cons.prems(2))
  have q: "Q x = Q' y"
    by (rule Cons.prems(2)) (simp_all add: y(1))
  show ?case
    by (simp add: y ih q)
qed

lemma foldl_upd_lookup:
  "foldl (\<lambda>m (k, v). m(k \<mapsto> v)) m es k =
     (case map_of (rev es) k of None \<Rightarrow> m k | Some v \<Rightarrow> Some v)"
  by (induction es arbitrary: m) (auto simp: map_add_def split: option.splits)

lemma new_Map_lookup: "new_Map es k = map_of (rev es) k"
  by (simp add: new_Map_def foldl_upd_lookup split: option.splits)

lemma new_Map_last:
  "(\<And>e. e \<in> set zs \<Longrightarrow> fst e \<noteq> k) \<Longrightarrow> new_Map (ys @ (k, v) # zs) k = Some v"
proof -
  assume a: "\<And>e. e \<in> set zs \<Longrightarrow> fst e \<noteq> k"
  have "map_of (rev zs) k = None"
    using a by (force simp: map_of_eq_None_iff)
  then show ?thesis
    by (simp add: new_Map_lookup map_add_def)
qed

lemma new_Map_absent:
  "(\<And>e. e \<in> set es \<Longrightarrow> fst e \<noteq> k) \<Longrightarrow> new_Map es k = None"
  by (force simp: new_Map_lookup map_of_eq_None_iff)

lemma map_of_filter_fst: "k \<in> W \<Longrightarrow> map_of (filter (\<lambda>e. fst e \<in> W) es) k = map_of es k"
  by (induction es) auto

lemma new_Map_filter: "k \<in> W \<Longrightarrow> new_Map (filter (\<lambda>e. fst e \<in> W) es) k = new_Map es k"
  by (simp add: new_Map_lookup rev_filter map_of_filter_fst)

text \<open>The lookup of a key finds the last sample that has the key.\<close>

lemma new_Map_mapE:
  assumes "mapE f xs = Inr es"
    and "\<And>x e. x \<in> set xs \<Longrightarrow> f x = Inr e \<Longrightarrow> snd e = x \<and> (fst e = k \<longleftrightarrow> Q x)"
  shows "new_Map es k = (case filter Q xs of [] \<Rightarrow> None | y # ys \<Rightarrow> Some (last (y # ys)))"
  using assms
proof (induction xs arbitrary: es)
  case Nil
  then show ?case by (simp add: new_Map_lookup)
next
  case (Cons x xs)
  from Cons.prems(1) obtain e es' where e: "f x = Inr e" and es': "mapE f xs = Inr es'"
    and es: "es = e # es'"
    by (auto split: sum.splits)
  have x: "snd e = x" "fst e = k \<longleftrightarrow> Q x"
    using Cons.prems(2)[of x e] e by simp_all
  have IH: "new_Map es' k = (case filter Q xs of [] \<Rightarrow> None | y # ys \<Rightarrow> Some (last (y # ys)))"
    by (rule Cons.IH[OF es']) (simp add: Cons.prems(2))
  have here: "new_Map es k = (case new_Map es' k of None \<Rightarrow> if Q x then Some x else None | Some v \<Rightarrow> Some v)"
    using x by (cases e) (auto simp: es new_Map_lookup map_add_def split: option.splits)
  show ?case
    unfolding here IH by (cases "filter Q xs") simp_all
qed

lemma ensure_entries_lookup:
  "ensure_entries m days k =
     (case m k of
        Some v \<Rightarrow> Some v
      | None \<Rightarrow> if k \<in> set days then Some \<lparr> date = Str k, views = 0 \<rparr> else None)"
  unfolding ensure_entries_def
  by (induction days arbitrary: m) (auto split: option.splits)

lemma last30DaysStats_filled:
  "last30DaysStats (ensure_entries m days) days =
     Inr (map (\<lambda>d. \<lparr> date = Str d, views = (case m d of None \<Rightarrow> 0 | Some s \<Rightarrow> views s) \<rparr>) days)"
  unfolding last30DaysStats_def
  by (rule mapE_map) (simp add: ensure_entries_lookup split: option.splits)

lemma push_missing_noop:
  "(\<And>d. d \<in> set days \<Longrightarrow> m d \<noteq> None) \<Longrightarrow> push_missing m days series = series"
  unfolding push_missing_def
  by (induction days arbitrary: series) simp_all

lemma push_missing_filled: "push_missing (ensure_entries m days) days series = series"
  by (rule push_missing_noop) (simp add: ensure_entries_lookup split: option.splits)

lemma series_nth:
  assumes "i < length days"
  shows "map (\<lambda>k. \<lparr> date = Str k, views = (case m k of None \<Rightarrow> 0 | Some s \<Rightarrow> views s) \<rparr>) days ! i
         = \<lparr> date = Str (days ! i), views = (case m (days ! i) of None \<Rightarrow> 0 | Some s \<Rightarrow> views s) \<rparr>"
  using assms by simp

lemma last30Days_length: "last30Days rt = Inr days \<Longrightarrow> length days = 30"
  unfolding last30Days_def
  by (auto split: sum.splits dest: mapE_Inr_length)

section \<open>The run\<close>

lemma stat_entry_Inl_iff: "stat_entry rt s = Inl e \<longleftrightarrow> e = RangeError \<and> new_Date rt (date s) = None"
  by (cases "new_Date rt (date s)") (auto simp: stat_entry_def isoDay_None isoDay_Some)

lemma stat_entry_Inr_snd: "stat_entry rt s = Inr (k, s') \<Longrightarrow> s' = s"
  by (auto simp: stat_entry_def split: sum.splits)

lemma stat_entry_Inr_ex: "new_Date rt (date s) \<noteq> None \<Longrightarrow> \<exists>k. stat_entry rt s = Inr (k, s)"
  by (cases "new_Date rt (date s)") (auto simp: stat_entry_def isoDay_Some)

lemma new_Date_valid: "new_Date rt v = Some t \<Longrightarrow> \<bar>t\<bar> \<le> 8640000000000000"
  by (auto simp: new_Date_def TimeClip_def split: jsval.splits option.splits if_splits)

lemma stat_entry_key:
  assumes "stat_entry rt s = Inr e"
  shows "\<exists>t. new_Date rt (date s) = Some t \<and> e = (DateString t, s)"
proof (cases "new_Date rt (date s)")
  case None
  with assms show ?thesis by (simp add: stat_entry_def isoDay_None)
next
  case (Some t)
  with assms show ?thesis by (auto simp: stat_entry_def isoDay_valid)
qed

text \<open>The key of a sample is the key of a day exactly when the sample's date is on that
  day in UTC.\<close>

lemma stat_entry_day:
  assumes e: "stat_entry rt s = Inr e" and n: "\<bar>n\<bar> \<le> 100000000"
  shows "snd e = s \<and> (fst e = DateString (n * msPerDay) \<longleftrightarrow> map_option Day (new_Date rt (date s)) = Some n)"
proof -
  obtain t where t: "new_Date rt (date s) = Some t" and k: "e = (DateString t, s)"
    using stat_entry_key[OF e] by blast
  have d: "\<bar>Day t\<bar> \<le> 100000000"
    by (rule valid_Day) (rule new_Date_valid[OF t])
  have "DateString t = DateString (Day t * msPerDay)"
    by (rule DateString_Day) (simp add: Day_of_day)
  moreover have "DateString (Day t * msPerDay) = DateString (n * msPerDay) \<longleftrightarrow> Day t = n"
    using DateString_days_inj[OF d n] by blast
  ultimately show ?thesis
    by (simp add: k t)
qed

lemma mapE_stat_entry_valid:
  assumes "list_all (\<lambda>s. new_Date rt (date s) \<noteq> None) daily"
  shows "\<exists>entries. mapE (stat_entry rt) daily = Inr entries"
proof (rule mapE_total)
  fix s
  assume "s \<in> set daily"
  then have "new_Date rt (date s) \<noteq> None"
    using assms by (simp add: list_all_iff)
  then show "\<exists>y. stat_entry rt s = Inr y"
    using stat_entry_Inr_ex[of rt s] by blast
qed

lemma mapE_stat_entry_invalid:
  assumes "list_ex (\<lambda>s. new_Date rt (date s) = None) daily"
  shows "mapE (stat_entry rt) daily = Inl RangeError"
proof -
  obtain s where s: "s \<in> set daily" "new_Date rt (date s) = None"
    using assms by (auto simp: list_ex_iff)
  then have "stat_entry rt s = Inl RangeError"
    by (simp add: stat_entry_Inl_iff)
  then obtain e where e: "mapE (stat_entry rt) daily = Inl e"
    using mapE_Inl_intro[OF s(1)] by blast
  then have "e = RangeError"
    using mapE_Inl[OF e] by (auto simp: stat_entry_Inl_iff)
  with e show ?thesis by simp
qed

lemma in_window_entry:
  assumes "stat_entry rt s = Inr e"
  shows "list_ex (\<lambda>k. stat_entry rt s = Inr (k, s)) days \<longleftrightarrow> fst e \<in> set days"
proof -
  have "snd e = s"
    using assms stat_entry_Inr_snd[of rt s "fst e" "snd e"] by simp
  then have "e = (fst e, s)" by (metis prod.collapse)
  then show ?thesis
    using assms by (auto simp: list_ex_iff)
qed

lemma window_entries:
  assumes "mapE (stat_entry rt) daily = Inr entries"
  shows "mapE (stat_entry rt) (filter (\<lambda>s. list_ex (\<lambda>k. stat_entry rt s = Inr (k, s)) days) daily)
         = Inr (filter (\<lambda>e. fst e \<in> set days) entries)"
  by (rule mapE_filter[OF assms]) (rule in_window_entry)

lemma filter_individual_Inr:
  "links_individual d = [] \<or> links p \<noteq> None \<Longrightarrow>
   \<exists>individual. filter_individual p (links_individual d) = Inr individual"
  by (auto simp: filter_individual_def split: list.splits option.splits)

lemma list_ex_url: "list_ex (\<lambda>pLink. url pLink = url l) pLinks \<longleftrightarrow> url l \<in> url ` set pLinks"
  by (force simp: list_ex_iff image_iff)

lemma filter_individual_D:
  assumes "filter_individual p individual = Inr kept"
  shows "kept = filter (\<lambda>l. \<exists>pLinks. links p = Some pLinks \<and> url l \<in> url ` set pLinks) individual"
proof (cases individual)
  case Nil
  with assms show ?thesis by (simp add: filter_individual_def)
next
  case (Cons l ls)
  with assms obtain pLinks where p: "links p = Some pLinks"
    by (cases "links p") (simp_all add: filter_individual_def)
  with assms Cons have "kept = filter (\<lambda>l. url l \<in> url ` set pLinks) individual"
    by (simp add: filter_individual_def list_ex_url)
  with p show ?thesis by simp
qed

text \<open>
  While the magnitudes of the counts add up to at most \<open>2 ^ 53\<close>, no addition rounds and
  the total is the exact sum.
\<close>

lemma round_to_double_exact: "\<bar>n\<bar> \<le> 9007199254740992 \<Longrightarrow> round_to_double n = Finite n"
  by (simp add: round_to_double_def)

lemma totalClicks_foldl:
  assumes "\<bar>a\<bar> + sum_list (map (\<lambda>l. \<bar>clicks l\<bar>) xs) \<le> 9007199254740992"
  shows "foldl (\<lambda>acc l. add_Number acc (clicks l)) (Finite a) xs
         = Finite (a + sum_list (map clicks xs))"
  using assms
proof (induction xs arbitrary: a)
  case Nil
  show ?case by simp
next
  case (Cons x xs)
  have rest: "0 \<le> sum_list (map (\<lambda>l. \<bar>clicks l\<bar>) xs)"
    by (rule sum_list_nonneg) auto
  have "\<bar>a + clicks x\<bar> \<le> 9007199254740992"
    using Cons.prems rest by simp
  then have step: "add_Number (Finite a) (clicks x) = Finite (a + clicks x)"
    by (simp add: add_Number_def round_to_double_exact)
  have "\<bar>a + clicks x\<bar> + sum_list (map (\<lambda>l. \<bar>clicks l\<bar>) xs) \<le> 9007199254740992"
    using Cons.prems by simp
  from Cons.IH[OF this] show ?case
    by (simp add: step add.assoc)
qed

lemma totalClicks_sum:
  assumes "sum_list (map (\<lambda>l. \<bar>clicks l\<bar>) xs) \<le> 9007199254740992"
  shows "totalClicks xs = Finite (sum_list (map clicks xs))"
  using totalClicks_foldl[of 0 xs] assms by (simp add: totalClicks_def)

lemma is_missing_links: "is_missing p ''links'' \<longleftrightarrow> links p = None \<or> links p = Some []"
  by (cases "links p") (simp_all add: is_missing_def property_length_def)

lemma is_missing_milestones:
  "is_missing p ''milestones'' \<longleftrightarrow> milestones p = None \<or> milestones p = Some []"
  by (cases "milestones p") (simp_all add: is_missing_def property_length_def)

lemma is_missing_tags: "is_missing p ''tags'' \<longleftrightarrow> tags p = None \<or> tags p = Some []"
  by (cases "tags p") (simp_all add: is_missing_def property_length_def)

lemma is_missing_socials: "is_missing p ''socials'' \<longleftrightarrow> socials p = None \<or> socials p = Some []"
  by (cases "socials p") (simp_all add: is_missing_def property_length_def)

lemma is_missing_testimonials:
  "is_missing p ''testimonials'' \<longleftrightarrow> testimonials p = None \<or> testimonials p = Some []"
  by (cases "testimonials p") (simp_all add: is_missing_def property_length_def)

lemma missing_sections:
  "filter (is_missing p) profileSections =
     (if links p = None \<or> links p = Some [] then [''links''] else []) @
     (if milestones p = None \<or> milestones p = Some [] then [''milestones''] else []) @
     (if tags p = None \<or> tags p = Some [] then [''tags''] else []) @
     (if socials p = None \<or> socials p = Some [] then [''socials''] else []) @
     (if testimonials p = None \<or> testimonials p = Some [] then [''testimonials''] else [])"
  unfolding profileSections_def
  by (simp add: is_missing_links is_missing_milestones is_missing_tags is_missing_socials
      is_missing_testimonials)

lemma at_most_five:
  fixes k :: nat
  assumes "k \<le> 5"
  shows "k = 5 \<or> k = 4 \<or> k = 3 \<or> k = 2 \<or> k = 1 \<or> k = 0"
  using assms by arith

lemma percentage_table:
  assumes "n \<le> 5"
  shows "toFixed_0 ((of_nat (5 - n) / of_nat 5) * 100) =
         [''100'', ''80'', ''60'', ''40'', ''20'', ''0''] ! n"
proof -
  note at_most_five[OF assms]
  moreover have "toFixed_0 ((of_nat (5 - 0) / of_nat 5) * 100) = ''100''" by code_simp
  moreover have "toFixed_0 ((of_nat (5 - 1) / of_nat 5) * 100) = ''80''" by code_simp
  moreover have "toFixed_0 ((of_nat (5 - 2) / of_nat 5) * 100) = ''60''" by code_simp
  moreover have "toFixed_0 ((of_nat (5 - 3) / of_nat 5) * 100) = ''40''" by code_simp
  moreover have "toFixed_0 ((of_nat (5 - 4) / of_nat 5) * 100) = ''20''" by code_simp
  moreover have "toFixed_0 ((of_nat (5 - 5) / of_nat 5) * 100) = ''0''" by code_simp
  ultimately show ?thesis
    by (elim disjE) simp_all
qed

lemma length_missing_le: "length (filter (is_missing p) profileSections) \<le> 5"
proof -
  have "length (filter (is_missing p) profileSections) \<le> length profileSections"
    by (rule length_filter_le)
  then show ?thesis by (simp add: profileSections_def)
qed

lemma compute_progress_percentage:
  "percentage (compute_progress p) =
     [''100'', ''80'', ''60'', ''40'', ''20'', ''0''] ! length (missing (compute_progress p))"
proof -
  have len: "length profileSections = 5" by (simp add: profileSections_def)
  show ?thesis
    unfolding compute_progress_def Let_def len
    using percentage_table[OF length_missing_le[of p]] by simp
qed

lemma reshape_Inr_iff:
  "reshape rt p (Some d) = Inr r \<longleftrightarrow>
     (\<exists>individual entries days.
        filter_individual p (links_individual d) = Inr individual \<and>
        mapE (stat_entry rt) (profile_daily d) = Inr entries \<and>
        last30Days rt = Inr days \<and>
        r = Props
          \<lparr> data = d \<lparr> links_individual := individual,
                       links_clicks := totalClicks individual,
                       profile_daily :=
                         map (\<lambda>k. \<lparr> date = Str k,
                                    views = (case new_Map entries k of None \<Rightarrow> 0 | Some s \<Rightarrow> views s) \<rparr>)
                           days \<rparr>,
            profile = p,
            progress = compute_progress p,
            BASE_URL = NEXT_PUBLIC_BASE_URL rt \<rparr>)"
  unfolding reshape_def Let_def
  by (auto simp: last30DaysStats_filled push_missing_filled split: sum.splits)

lemma reshape_None: "reshape rt p None = Inl TypeError"
  by (simp add: reshape_def)

lemma getServerSideProps_Props_iff:
  "getServerSideProps rt session getUserApi getStats = Inr (Props P) \<longleftrightarrow>
     (\<exists>u p. session = Some u \<and> getUserApi u = (200, p) \<and>
            reshape rt p (getStats u) = Inr (Props P))"
  unfolding getServerSideProps_def
  by (auto split: option.splits prod.splits)

text \<open>The run, when it returns props, in terms of the inputs.\<close>

lemma run_Props:
  assumes "getServerSideProps rt (Some u) getUserApi getStats = Inr (Props P)"
    and "getStats u = Some d"
  shows "\<exists>individual entries days.
        fst (getUserApi u) = 200 \<and>
        filter_individual (snd (getUserApi u)) (links_individual d) = Inr individual \<and>
        mapE (stat_entry rt) (profile_daily d) = Inr entries \<and>
        last30Days rt = Inr days \<and>
        P = \<lparr> data = d \<lparr> links_individual := individual,
                       links_clicks := totalClicks individual,
                       profile_daily :=
                         map (\<lambda>k. \<lparr> date = Str k,
                                    views = (case new_Map entries k of None \<Rightarrow> 0 | Some s \<Rightarrow> views s) \<rparr>)
                           days \<rparr>,
            profile = snd (getUserApi u),
            progress = compute_progress (snd (getUserApi u)),
            BASE_URL = NEXT_PUBLIC_BASE_URL rt \<rparr>"
proof -
  have "fst (getUserApi u) = 200 \<and> reshape rt (snd (getUserApi u)) (Some d) = Inr (Props P)"
    using assms by (auto simp: getServerSideProps_Props_iff)
  then show ?thesis
    unfolding reshape_Inr_iff by blast
qed

lemma run_Props_stats:
  assumes "getServerSideProps rt (Some u) getUserApi getStats = Inr (Props P)"
  shows "\<exists>d. getStats u = Some d"
proof (cases "getStats u")
  case None
  with assms show ?thesis
    by (auto simp: getServerSideProps_Props_iff reshape_None)
next
  case (Some d)
  then show ?thesis by simp
qed

lemma run_total:
  assumes "getUserApi u = (200, p)" and "getStats u = Some d"
    and "links_individual d = [] \<or> links p \<noteq> None"
    and "list_all (\<lambda>s. new_Date rt (date s) \<noteq> None) (profile_daily d)"
    and "last30Days rt = Inr days"
  shows "\<exists>P. getServerSideProps rt (Some u) getUserApi getStats = Inr (Props P)"
proof -
  obtain individual where "filter_individual p (links_individual d) = Inr individual"
    using filter_individual_Inr[OF assms(3)] by blast
  moreover obtain entries where "mapE (stat_entry rt) (profile_daily d) = Inr entries"
    using mapE_stat_entry_valid[OF assms(4)] by blast
  ultimately have "\<exists>r. reshape rt p (Some d) = Inr (Props r)"
    using assms(5) unfolding reshape_Inr_iff by blast
  then show ?thesis
    using assms(1,2) by (auto simp: getServerSideProps_Props_iff)
qed

section \<open>The series over the thirty generated days\<close>

text \<open>
  The facts of this section hold in every time zone.  They are about the thirty keys
  that lines 92-97 generate, whichever days these are; which days they are depends on
  the time zone and is settled in the next section and in the claims.
\<close>

text \<open>
  A sample of the input whose calendar-day key \<open>k\<close> is one of the thirty days, and
  which is the last sample of the input with that key, gives its views to the entry of
  the series for that day: when several samples share a key, the last one wins.  The
  sample \<open>s\<close> stands at any place of the input, \<open>before\<close> and \<open>after\<close> being the samples
  around it.
\<close>

lemma in_window_views:
  assumes run: "getServerSideProps rt (Some u) getUserApi getStats = Inr (Props P)"
    and stats: "getStats u = Some d"
    and days: "last30Days rt = Inr days"
    and split: "profile_daily d = before @ s # after"
    and key: "stat_entry rt s = Inr (k, s)"
    and last: "list_all (\<lambda>z. stat_entry rt z \<noteq> Inr (k, z)) after"
    and i: "i < 30" "days ! i = k"
  shows "profile_daily (data P) ! i = \<lparr> date = Str k, views = views s \<rparr>"
proof -
  from run_Props[OF run stats] days obtain entries where
    entries: "mapE (stat_entry rt) (profile_daily d) = Inr entries"
    and daily: "profile_daily (data P) =
        map (\<lambda>k. \<lparr> date = Str k, views = (case new_Map entries k of None \<Rightarrow> 0 | Some s \<Rightarrow> views s) \<rparr>) days"
    by auto
  from entries split obtain eb e ea where
    e: "entries = eb @ e # ea" "stat_entry rt s = Inr e" "mapE (stat_entry rt) after = Inr ea"
    using mapE_append_Cons[of "stat_entry rt" before s after entries] by auto
  have e_eq: "e = (k, s)" using e(2) key by simp
  have "fst e' \<noteq> k" if "e' \<in> set ea" for e'
  proof
    assume k: "fst e' = k"
    from mapE_Inr_mem[OF e(3) that] obtain z where z: "z \<in> set after" "stat_entry rt z = Inr e'"
      by blast
    have "snd e' = z" using z(2) stat_entry_Inr_snd[of rt z "fst e'" "snd e'"] by simp
    with k z(2) have "stat_entry rt z = Inr (k, z)" by (metis prod.collapse)
    with last z(1) show False by (simp add: list_all_iff)
  qed
  then have "new_Map entries k = Some s"
    unfolding e(1) e_eq by (rule new_Map_last)
  moreover have "i < length days" using i(1) last30Days_length[OF days] by simp
  ultimately show ?thesis
    unfolding daily using i(2) by (simp add: series_nth)
qed

text \<open>
  A day of the thirty for which the input has no sample gets the views 0; with no
  samples at all, every entry of the series has the views 0.
\<close>

lemma absent_day_zero:
  assumes run: "getServerSideProps rt (Some u) getUserApi getStats = Inr (Props P)"
    and stats: "getStats u = Some d"
    and days: "last30Days rt = Inr days"
  shows "(\<forall>i<30. list_all (\<lambda>s. stat_entry rt s \<noteq> Inr (days ! i, s)) (profile_daily d) \<longrightarrow>
            profile_daily (data P) ! i = \<lparr> date = Str (days ! i), views = 0 \<rparr>) \<and>
         (profile_daily d = [] \<longrightarrow>
            profile_daily (data P) = map (\<lambda>k. \<lparr> date = Str k, views = 0 \<rparr>) days)"
proof -
  from run_Props[OF run stats] days obtain entries where
    entries: "mapE (stat_entry rt) (profile_daily d) = Inr entries"
    and daily: "profile_daily (data P) =
        map (\<lambda>k. \<lparr> date = Str k, views = (case new_Map entries k of None \<Rightarrow> 0 | Some s \<Rightarrow> views s) \<rparr>) days"
    by auto
  have len: "length days = 30" by (rule last30Days_length[OF days])
  have absent: "new_Map entries k = None"
    if "list_all (\<lambda>s. stat_entry rt s \<noteq> Inr (k, s)) (profile_daily d)" for k
  proof (rule new_Map_absent)
    fix e assume "e \<in> set entries"
    from mapE_Inr_mem[OF entries this] obtain z where
      z: "z \<in> set (profile_daily d)" "stat_entry rt z = Inr e" by blast
    have "snd e = z" using z(2) stat_entry_Inr_snd[of rt z "fst e" "snd e"] by simp
    show "fst e \<noteq> k"
    proof
      assume "fst e = k"
      with \<open>snd e = z\<close> z(2) have "stat_entry rt z = Inr (k, z)" by (metis prod.collapse)
      with that z(1) show False by (simp add: list_all_iff)
    qed
  qed
  have first: "\<forall>i<30. list_all (\<lambda>s. stat_entry rt s \<noteq> Inr (days ! i, s)) (profile_daily d) \<longrightarrow>
            profile_daily (data P) ! i = \<lparr> date = Str (days ! i), views = 0 \<rparr>"
    unfolding daily using len by (simp add: absent)
  have second: "profile_daily d = [] \<longrightarrow>
            profile_daily (data P) = map (\<lambda>k. \<lparr> date = Str k, views = 0 \<rparr>) days"
    unfolding daily by (simp add: absent)
  from first second show ?thesis by blast
qed

text \<open>
  The dates of the series are the thirty days and nothing else, and samples whose
  key is not one of them have no effect: replacing the samples by any other list of
  samples with valid dates that has the same samples on the thirty days, in the same
  order, yields the same props (and so is no error).
\<close>

lemma out_of_window_ignored:
  assumes run: "getServerSideProps rt (Some u) getUserApi getStats = Inr (Props P)"
    and stats: "getStats u = Some d"
    and stats': "getStats' u = Some (d \<lparr> profile_daily := daily' \<rparr>)"
    and days: "last30Days rt = Inr days"
    and valid: "list_all (\<lambda>s. new_Date rt (date s) \<noteq> None) daily'"
    and agree: "filter (\<lambda>s. list_ex (\<lambda>k. stat_entry rt s = Inr (k, s)) days) (profile_daily d)
              = filter (\<lambda>s. list_ex (\<lambda>k. stat_entry rt s = Inr (k, s)) days) daily'"
  shows "getServerSideProps rt (Some u) getUserApi getStats' = Inr (Props P) \<and>
         map date (profile_daily (data P)) = map Str days"
proof -
  define p where "p = snd (getUserApi u)"
  from run_Props[OF run stats] days obtain individual entries where
    ok: "fst (getUserApi u) = 200"
    and ind: "filter_individual p (links_individual d) = Inr individual"
    and entries: "mapE (stat_entry rt) (profile_daily d) = Inr entries"
    and P: "P = \<lparr> data = d \<lparr> links_individual := individual,
                       links_clicks := totalClicks individual,
                       profile_daily :=
                         map (\<lambda>k. \<lparr> date = Str k,
                                    views = (case new_Map entries k of None \<Rightarrow> 0 | Some s \<Rightarrow> views s) \<rparr>)
                           days \<rparr>,
            profile = p,
            progress = compute_progress p,
            BASE_URL = NEXT_PUBLIC_BASE_URL rt \<rparr>"
    unfolding p_def by auto
  obtain entries' where entries': "mapE (stat_entry rt) daily' = Inr entries'"
    using mapE_stat_entry_valid[OF valid] by blast
  have "Inr (filter (\<lambda>e. fst e \<in> set days) entries)
        = (Inr (filter (\<lambda>e. fst e \<in> set days) entries') :: error + (string \<times> stat) list)"
    using window_entries[OF entries, of days] window_entries[OF entries', of days] agree
    by simp
  then have same: "filter (\<lambda>e. fst e \<in> set days) entries = filter (\<lambda>e. fst e \<in> set days) entries'"
    by simp
  have lookup: "new_Map entries k = new_Map entries' k" if "k \<in> set days" for k
    using new_Map_filter[OF that, of entries] new_Map_filter[OF that, of entries'] same
    by simp
  have series: "map (\<lambda>k. \<lparr> date = Str k,
                  views = (case new_Map entries' k of None \<Rightarrow> 0 | Some s \<Rightarrow> views s) \<rparr>) days
              = map (\<lambda>k. \<lparr> date = Str k,
                  views = (case new_Map entries k of None \<Rightarrow> 0 | Some s \<Rightarrow> views s) \<rparr>) days"
    by (rule map_cong) (simp_all add: lookup)
  have "reshape rt p (Some (d \<lparr> profile_daily := daily' \<rparr>)) = Inr (Props P)"
    unfolding reshape_Inr_iff
    by (intro exI[of _ individual] exI[of _ entries'] exI[of _ days])
       (simp add: ind entries' days series P)
  then have one: "getServerSideProps rt (Some u) getUserApi getStats' = Inr (Props P)"
    using ok stats' unfolding p_def
    by (cases "getUserApi u") (simp add: getServerSideProps_def)
  have two: "map date (profile_daily (data P)) = map Str days"
    unfolding P by (simp add: comp_def)
  from one two show ?thesis by blast
qed

section \<open>A time zone with a constant offset\<close>

text \<open>
  In a time zone with a constant offset from UTC (UTC itself is one), the day
  \<open>index\<close> steps back is the UTC day of the clock minus \<open>index\<close>.
\<close>

lemma window_day_fixed_offset:
  assumes utc: "LocalTZA_utc rt = (\<lambda>t. c)" and loc: "LocalTZA_local rt = (\<lambda>t. c)"
    and now: "\<bar>now\<bar> \<le> 8640000000000000"
    and past: "\<bar>now - i * msPerDay\<bar> \<le> 8640000000000000"
  shows "window_day rt now i = Inr (DateString ((Day now - i) * msPerDay))"
proof -
  have clip: "TimeClip now = Some now"
    using now by (simp add: TimeClip_def)
  have "UTC rt (LocalTime rt now - i * msPerDay) = now - i * msPerDay"
    by (simp add: UTC_def LocalTime_def utc loc)
  then have "setDate rt (TimeClip now) (getDate rt now - i) = Some (now - i * msPerDay)"
    unfolding clip setDate_getDate using past by (simp add: TimeClip_def)
  then have "window_day rt now i = Inr (DateString (now - i * msPerDay))"
    by (simp add: window_day_def isoDay_valid)
  moreover have "DateString (now - i * msPerDay) = DateString ((Day now - i) * msPerDay)"
    by (rule DateString_Day) (simp add: Day_minus_days Day_of_day)
  ultimately show ?thesis by simp
qed

lemma last30Days_fixed_offset:
  assumes utc: "LocalTZA_utc rt = (\<lambda>t. c)" and loc: "LocalTZA_local rt = (\<lambda>t. c)"
    and now: "\<bar>Date_now rt\<bar> \<le> 8640000000000000"
    and past: "\<bar>Date_now rt - 29 * msPerDay\<bar> \<le> 8640000000000000"
  shows "last30Days rt =
           Inr (map (\<lambda>n. DateString (n * msPerDay)) [Day (Date_now rt) - 29 .. Day (Date_now rt)])"
proof -
  define t where "t = Date_now rt"
  have each: "window_day rt t i = Inr (DateString ((Day t - i) * msPerDay))"
    if "i \<in> set (map int [0..<30])" for i
  proof (rule window_day_fixed_offset[OF utc loc])
    show "\<bar>t\<bar> \<le> 8640000000000000" using now by (simp add: t_def)
    have "0 \<le> i" "i \<le> 29" using that by auto
    then show "\<bar>t - i * msPerDay\<bar> \<le> 8640000000000000"
      using now past by (simp add: t_def msPerDay_def)
  qed
  have "mapE (window_day rt t) (map int [0..<30])
        = Inr (map (\<lambda>i. DateString ((Day t - i) * msPerDay)) (map int [0..<30]))"
    by (rule mapE_map) (rule each)
  then have l: "last30Days rt
        = Inr (rev (map (\<lambda>i. DateString ((Day t - i) * msPerDay)) (map int [0..<30])))"
    by (simp add: last30Days_def t_def)
  have "rev (map (\<lambda>i. DateString ((Day t - i) * msPerDay)) (map int [0..<30]))
        = map (\<lambda>n. DateString (n * msPerDay)) [Day t - 29 .. Day t]"
  proof (rule nth_equalityI)
    show "length (rev (map (\<lambda>i. DateString ((Day t - i) * msPerDay)) (map int [0..<30])))
          = length (map (\<lambda>n. DateString (n * msPerDay)) [Day t - 29 .. Day t])"
      by simp
  next
    fix j
    assume "j < length (rev (map (\<lambda>i. DateString ((Day t - i) * msPerDay)) (map int [0..<30])))"
    then have j: "j < 30" by simp
    have a: "rev (map (\<lambda>i. DateString ((Day t - i) * msPerDay)) (map int [0..<30])) ! j
               = DateString ((Day t - int (29 - j)) * msPerDay)"
      using j by (simp add: rev_nth)
    have b: "map (\<lambda>n. DateString (n * msPerDay)) [Day t - 29 .. Day t] ! j
               = DateString ((Day t - 29 + int j) * msPerDay)"
      using j by simp
    have c: "Day t - int (29 - j) = Day t - 29 + int j"
      using j by simp
    show "rev (map (\<lambda>i. DateString ((Day t - i) * msPerDay)) (map int [0..<30])) ! j
               = map (\<lambda>n. DateString (n * msPerDay)) [Day t - 29 .. Day t] ! j"
      by (simp only: a b c)
  qed
  with l show ?thesis by (simp add: t_def)
qed

text \<open>
  In a time zone with a constant offset from UTC the thirty days are the UTC days
  \<open>today - 29\<close> to \<open>today\<close> in ascending order, each once.
\<close>

lemma fixed_offset_thirty_days:
  assumes utc: "LocalTZA_utc rt = (\<lambda>t. c)" and loc: "LocalTZA_local rt = (\<lambda>t. c)"
    and now: "\<bar>Date_now rt\<bar> \<le> 8640000000000000"
    and past: "\<bar>Date_now rt - 29 * msPerDay\<bar> \<le> 8640000000000000"
  shows "last30Days rt =
           Inr (map (\<lambda>n. DateString (n * msPerDay)) [Day (Date_now rt) - 29 .. Day (Date_now rt)]) \<and>
         distinct (map (\<lambda>n. DateString (n * msPerDay)) [Day (Date_now rt) - 29 .. Day (Date_now rt)])"
proof -
  have "\<bar>Day (Date_now rt)\<bar> \<le> 100000000"
    by (rule valid_Day[OF now])
  moreover have "\<bar>Day (Date_now rt) - 29\<bar> \<le> 100000000"
    using valid_Day[OF past] by (simp add: Day_minus_days)
  ultimately show ?thesis
    using last30Days_fixed_offset[OF utc loc now past] thirty_days_distinct by blast
qed

text \<open>
  So in such a zone the dates of the series are the UTC days \<open>today - 29\<close> to \<open>today\<close>,
  ascending, without a gap and without a duplicate.
\<close>

lemma fixed_offset_series_dates:
  assumes utc: "LocalTZA_utc rt = (\<lambda>t. c)" and loc: "LocalTZA_local rt = (\<lambda>t. c)"
    and now: "\<bar>Date_now rt\<bar> \<le> 8640000000000000"
    and past: "\<bar>Date_now rt - 29 * msPerDay\<bar> \<le> 8640000000000000"
    and run: "getServerSideProps rt (Some u) getUserApi getStats = Inr (Props P)"
  shows "map date (profile_daily (data P)) =
           map (\<lambda>n. Str (DateString (n * msPerDay))) [Day (Date_now rt) - 29 .. Day (Date_now rt)] \<and>
         distinct (map date (profile_daily (data P)))"
proof -
  obtain d where d: "getStats u = Some d"
    using run_Props_stats[OF run] by blast
  from run_Props[OF run d] obtain days where
    days: "last30Days rt = Inr days"
    and dates: "map date (profile_daily (data P)) = map Str days"
    by (auto simp: comp_def)
  have eq: "days = map (\<lambda>n. DateString (n * msPerDay)) [Day (Date_now rt) - 29 .. Day (Date_now rt)]"
    and dist: "distinct days"
    using fixed_offset_thirty_days[OF utc loc now past] days by simp_all
  have "distinct (map Str days)"
    using dist by (simp add: distinct_map inj_on_def)
  with dates eq show ?thesis by (simp add: comp_def)
qed

text \<open>
  And the series itself, in such a zone, is what the specification describes: one entry
  for each UTC day from \<open>today - 29\<close> to \<open>today\<close>, ascending, with the views of the last
  sample of the input whose date is on that day in UTC, and the views 0 when the input has
  no sample on that day.  Samples of other days have no part in it.
\<close>

lemma fixed_offset_series:
  assumes utc: "LocalTZA_utc rt = (\<lambda>t. c)" and loc: "LocalTZA_local rt = (\<lambda>t. c)"
    and now: "\<bar>Date_now rt\<bar> \<le> 8640000000000000"
    and past: "\<bar>Date_now rt - 29 * msPerDay\<bar> \<le> 8640000000000000"
    and run: "getServerSideProps rt (Some u) getUserApi getStats = Inr (Props P)"
    and stats: "getStats u = Some d"
  shows "profile_daily (data P) =
           map (\<lambda>n. \<lparr> date = Str (DateString (n * msPerDay)),
                      views = (case filter (\<lambda>s. map_option Day (new_Date rt (date s)) = Some n)
                                      (profile_daily d) of
                                 [] \<Rightarrow> 0
                               | s # ss \<Rightarrow> views (last (s # ss))) \<rparr>)
             [Day (Date_now rt) - 29 .. Day (Date_now rt)]"
proof -
  from run_Props[OF run stats] obtain entries days where
    entries: "mapE (stat_entry rt) (profile_daily d) = Inr entries"
    and days: "last30Days rt = Inr days"
    and series: "profile_daily (data P) =
        map (\<lambda>k. \<lparr> date = Str k,
                   views = (case new_Map entries k of None \<Rightarrow> 0 | Some s \<Rightarrow> views s) \<rparr>) days"
    by auto
  have eq: "days = map (\<lambda>n. DateString (n * msPerDay)) [Day (Date_now rt) - 29 .. Day (Date_now rt)]"
    using last30Days_fixed_offset[OF utc loc now past] days by simp
  have hi: "\<bar>Day (Date_now rt)\<bar> \<le> 100000000"
    by (rule valid_Day[OF now])
  have lo: "\<bar>Day (Date_now rt) - 29\<bar> \<le> 100000000"
    using valid_Day[OF past] by (simp add: Day_minus_days)
  have look: "(case new_Map entries (DateString (n * msPerDay)) of None \<Rightarrow> 0 | Some s \<Rightarrow> views s)
      = (case filter (\<lambda>s. map_option Day (new_Date rt (date s)) = Some n) (profile_daily d) of
           [] \<Rightarrow> 0 | s # ss \<Rightarrow> views (last (s # ss)))"
    if "n \<in> set [Day (Date_now rt) - 29 .. Day (Date_now rt)]" for n
  proof -
    have n: "\<bar>n\<bar> \<le> 100000000"
      using that hi lo by auto
    have "new_Map entries (DateString (n * msPerDay))
        = (case filter (\<lambda>s. map_option Day (new_Date rt (date s)) = Some n) (profile_daily d) of
             [] \<Rightarrow> None | s # ss \<Rightarrow> Some (last (s # ss)))"
      by (rule new_Map_mapE[OF entries]) (rule stat_entry_day[OF _ n])
    then show ?thesis
      by (simp split: list.splits)
  qed
  show ?thesis
    unfolding series eq map_map comp_def
    by (rule map_cong[OF refl]) (simp add: look)
qed

lemma new_Date_clock: "new_Date (rt \<lparr> Date_now := now \<rparr>) v = new_Date rt v"
  by (cases v) (simp_all add: new_Date_def)

lemma stat_entry_clock: "stat_entry (rt \<lparr> Date_now := now \<rparr>) = stat_entry rt"
  by (rule ext) (simp add: stat_entry_def new_Date_clock)

lemma BASE_URL_clock: "NEXT_PUBLIC_BASE_URL (rt \<lparr> Date_now := now \<rparr>) = NEXT_PUBLIC_BASE_URL rt"
  by simp

text \<open>
  In a time zone with a constant offset from UTC the result depends on the clock only
  through its UTC day.
\<close>

lemma fixed_offset_same_day:
  assumes utc: "LocalTZA_utc rt = (\<lambda>t. c)" and loc: "LocalTZA_local rt = (\<lambda>t. c)"
    and now: "\<bar>Date_now rt\<bar> \<le> 8640000000000000"
    and past: "\<bar>Date_now rt - 29 * msPerDay\<bar> \<le> 8640000000000000"
    and now': "\<bar>now'\<bar> \<le> 8640000000000000"
    and past': "\<bar>now' - 29 * msPerDay\<bar> \<le> 8640000000000000"
    and day: "Day now' = Day (Date_now rt)"
  shows "getServerSideProps (rt \<lparr> Date_now := now' \<rparr>) session getUserApi getStats
         = getServerSideProps rt session getUserApi getStats"
proof -
  have days: "last30Days (rt \<lparr> Date_now := now' \<rparr>) = last30Days rt"
    using last30Days_fixed_offset[OF utc loc now past]
      last30Days_fixed_offset[of "rt \<lparr> Date_now := now' \<rparr>" c]
      utc loc now' past' day
    by simp
  have r: "reshape (rt \<lparr> Date_now := now' \<rparr>) = reshape rt"
    unfolding reshape_def stat_entry_clock BASE_URL_clock days ..
  show ?thesis
    unfolding getServerSideProps_def r ..
qed

section \<open>The examples, evaluated\<close>

lemma last30Days_utc_runtime: "last30Days utc_runtime = Inr january_2024"
  by code_simp

lemma example_valid:
  "list_all (\<lambda>s. new_Date utc_runtime (date s) \<noteq> None) (profile_daily example_stats)"
  by code_simp

lemma example_run:
  "getServerSideProps utc_runtime (Some ''alice'') (\<lambda>u. (200, example_profile))
     (\<lambda>u. Some example_stats) = Inr (Props example_props)"
  by code_simp

text \<open>
  The example of the specification: thirty entries from 2024-01-01 to 2024-01-30, with
  the views 9 on 2024-01-01, 5 on 2024-01-29 and 0 on the other days.
\<close>

lemma specification_example:
  "getServerSideProps utc_runtime (Some ''alice'') (\<lambda>u. (200, example_profile))
     (\<lambda>u. Some specification_stats)
   = Inr (Props (with_series
       (map (\<lambda>k. \<lparr> date = Str k,
                   views = (if k = ''2024-01-01'' then 9 else if k = ''2024-01-29'' then 5 else 0) \<rparr>)
          january_2024)))"
  by code_simp

lemma last30Days_berlin: "last30Days berlin_runtime = Inr berlin_days"
  by code_simp

lemma last30Days_berlin_noon: "last30Days berlin_noon = Inr berlin_noon_days"
  by code_simp

section \<open>The claims\<close>

text \<open>
  In the theorems below \<open>days\<close> are the thirty calendar-day keys that lines 92-97
  generate (\<open>last30Days rt = Inr days\<close>), oldest first; the series is
  \<open>data.profile.daily\<close> of the returned props.  A sample has the key \<open>k\<close> when
  \<open>stat_entry rt s = Inr (k, s)\<close>.
\<close>

text \<open>
  C1 at a failing input.  The process runs in the zone Europe/Berlin (UTC+2 until
  2026-10-25T01:00Z, UTC+1 after) and the clock reads 2026-11-03T00:30Z, which is 01:30
  local time.  Line 95 steps back in local time and line 96 renders in UTC: 01:30 local
  time falls on the same UTC day while the zone is at UTC+1 and on the previous UTC day
  while it is at UTC+2.  The series has no entry for 2026-10-25 and starts on 2026-10-04,
  thirty days before today.
\<close>

theorem berlin_series_has_gap:
  "getServerSideProps berlin_runtime (Some ''alice'') (\<lambda>u. (200, example_profile)) (\<lambda>u. Some no_samples)
     = Inr (Props (with_series (map (\<lambda>k. \<lparr> date = Str k, views = 0 \<rparr>) berlin_days))) \<and>
   isoDay (Some (Date_now berlin_runtime)) = Inr ''2026-11-03'' \<and>
   berlin_days ! 0 = ''2026-10-04'' \<and>
   berlin_days ! 20 = ''2026-10-24'' \<and> berlin_days ! 21 = ''2026-10-26''"
  by code_simp

text \<open>
  C2.  With an input that passes (the statistics were fetched, the link filter did not
  throw, every sample's date makes a valid Date), the page returns props whose series is
  the list built by the map of lines 107-110, of length 30: the loop of lines 113-117
  finds every day in the lookup and appends nothing.
\<close>

theorem series_length_30:
  assumes api: "getUserApi u = (200, p)"
    and stats: "getStats u = Some d"
    and links: "links_individual d = [] \<or> links p \<noteq> None"
    and valid: "list_all (\<lambda>s. new_Date rt (date s) \<noteq> None) (profile_daily d)"
    and days: "last30Days rt = Inr days"
  shows "\<exists>P entries series.
           getServerSideProps rt (Some u) getUserApi getStats = Inr (Props P) \<and>
           mapE (stat_entry rt) (profile_daily d) = Inr entries \<and>
           last30DaysStats (ensure_entries (new_Map entries) days) days = Inr series \<and>
           push_missing (ensure_entries (new_Map entries) days) days series = series \<and>
           profile_daily (data P) = series \<and>
           length (profile_daily (data P)) = 30"
proof -
  obtain P where run: "getServerSideProps rt (Some u) getUserApi getStats = Inr (Props P)"
    using run_total[where getUserApi = getUserApi and getStats = getStats and u = u,
        OF api stats links valid days] by blast
  from run_Props[OF run stats] days obtain entries where
    entries: "mapE (stat_entry rt) (profile_daily d) = Inr entries"
    and daily: "profile_daily (data P) =
        map (\<lambda>k. \<lparr> date = Str k, views = (case new_Map entries k of None \<Rightarrow> 0 | Some s \<Rightarrow> views s) \<rparr>) days"
    by auto
  have "length (profile_daily (data P)) = 30"
    unfolding daily using last30Days_length[OF days] by simp
  with run entries daily show ?thesis
    using last30DaysStats_filled[of "new_Map entries" days]
      push_missing_filled[of "new_Map entries" days]
    by auto
qed

text \<open>At the example, whose samples are unordered, repeat a day and leave the window.\<close>

theorem series_length_30_witness:
  "\<exists>P. getServerSideProps utc_runtime (Some ''alice'') (\<lambda>u. (200, example_profile))
          (\<lambda>u. Some example_stats) = Inr (Props P) \<and>
        length (profile_daily (data P)) = 30"
proof -
  have links: "links_individual example_stats = [] \<or> links example_profile \<noteq> None"
    by (simp add: example_profile_def)
  show ?thesis
    using series_length_30[where getUserApi = "\<lambda>u. (200, example_profile)"
        and getStats = "\<lambda>u. Some example_stats" and u = "''alice''",
        OF refl refl links example_valid last30Days_utc_runtime]
    by blast
qed

text \<open>
  C3 at a failing input.  In the time zone of Berlin, at 00:30 UTC of 2026-11-03, the
  input has one sample, of 2026-10-25 with 3 views.  Its day is nine days before today,
  within the trailing thirty days, yet every entry of the series has the views 0 and no
  entry has its date: the views of the sample are in no entry of the output.
\<close>

theorem berlin_sample_in_window_lost:
  "getServerSideProps berlin_runtime (Some ''alice'') (\<lambda>u. (200, example_profile))
     (\<lambda>u. Some berlin_sample_stats)
     = Inr (Props (with_series (map (\<lambda>k. \<lparr> date = Str k, views = 0 \<rparr>) berlin_days))) \<and>
   map_option Day (new_Date berlin_runtime (Str ''2026-10-25''))
     = Some (Day (Date_now berlin_runtime) - 9) \<and>
   \<not> list_ex (\<lambda>e. date e = Str ''2026-10-25'' \<or> views e = 3)
       (profile_daily (data (with_series (map (\<lambda>k. \<lparr> date = Str k, views = 0 \<rparr>) berlin_days))))"
  by code_simp

text \<open>
  C4 at a failing input.  In the time zone of Berlin, at 00:30 UTC of 2026-11-03, the
  input has one sample, of 2026-10-04.  The day nine days before today, 2026-10-25, is
  within the trailing thirty days and has no sample, yet the series of thirty entries
  has no entry for it, and so none with the views 0.
\<close>

theorem berlin_absent_day_without_entry:
  "getServerSideProps berlin_runtime (Some ''alice'') (\<lambda>u. (200, example_profile))
     (\<lambda>u. Some berlin_early_stats)
     = Inr (Props (with_series berlin_early_series)) \<and>
   length berlin_early_series = 30 \<and>
   isoDay (Some ((Day (Date_now berlin_runtime) - 9) * msPerDay)) = Inr ''2026-10-25'' \<and>
   \<not> list_ex (\<lambda>s. map_option Day (new_Date berlin_runtime (date s))
                     = Some (Day (Date_now berlin_runtime) - 9))
       (profile_daily berlin_early_stats) \<and>
   \<not> list_ex (\<lambda>e. date e = Str ''2026-10-25'') berlin_early_series"
  by code_simp

text \<open>
  C5 at a failing input.  In the time zone of Berlin, at 00:30 UTC of 2026-11-03, a sample
  of 2026-10-04 is thirty days before today, outside the trailing thirty days.  The input
  with this sample alone and the input with no sample have the same samples within the
  thirty days, namely none, yet their results differ: the sample appears in the output,
  as the first entry of the series, with its 8 views.
\<close>

theorem berlin_sample_out_of_window_shown:
  "map_option Day (new_Date berlin_runtime (Str ''2026-10-04''))
     = Some (Day (Date_now berlin_runtime) - 30) \<and>
   filter (\<lambda>s. list_ex (\<lambda>n. map_option Day (new_Date berlin_runtime (date s)) = Some n)
                 [Day (Date_now berlin_runtime) - 29 .. Day (Date_now berlin_runtime)])
     (profile_daily berlin_early_stats) = profile_daily no_samples \<and>
   getServerSideProps berlin_runtime (Some ''alice'') (\<lambda>u. (200, example_profile))
     (\<lambda>u. Some berlin_early_stats)
     = Inr (Props (with_series berlin_early_series)) \<and>
   hd berlin_early_series = \<lparr> date = Str ''2026-10-04'', views = 8 \<rparr> \<and>
   getServerSideProps berlin_runtime (Some ''alice'') (\<lambda>u. (200, example_profile))
     (\<lambda>u. Some berlin_early_stats)
     \<noteq> getServerSideProps berlin_runtime (Some ''alice'') (\<lambda>u. (200, example_profile))
         (\<lambda>u. Some no_samples)"
  by code_simp

text \<open>
  C6 at the same failing input.  The keys of the samples are UTC days; the thirty days
  come from local-time steps rendered in UTC.  A sample nine days before today
  (2026-10-25) is not in the series, and a sample thirty days before today (2026-10-04)
  is.
\<close>

theorem berlin_window_off_by_one:
  "getServerSideProps berlin_runtime (Some ''alice'') (\<lambda>u. (200, example_profile)) (\<lambda>u. Some berlin_stats)
     = Inr (Props (with_series
         (map (\<lambda>k. \<lparr> date = Str k, views = (if k = ''2026-10-04'' then 8 else 0) \<rparr>) berlin_days))) \<and>
   Day (Date_now berlin_runtime) = 20760 \<and>
   map_option Day (new_Date berlin_runtime (Str ''2026-10-25'')) = Some (20760 - 9) \<and>
   map_option Day (new_Date berlin_runtime (Str ''2026-10-04'')) = Some (20760 - 30)"
  by code_simp

text \<open>
  C7, as the code has it.  The page has no validation of its own.  When the link filter
  has passed, a sample whose date makes an invalid Date (an absent date, or a string
  that \<open>Date.parse\<close> does not read) makes the whole call throw the RangeError of
  \<open>toISOString\<close>, and no props are returned; a \<open>null\<close> date is not invalid, it is read
  as the epoch; and when every date makes a valid Date the call returns props.
\<close>

theorem invalid_date_throws_RangeError:
  assumes api: "getUserApi u = (200, p)"
    and stats: "getStats u = Some d"
    and links: "links_individual d = [] \<or> links p \<noteq> None"
    and days: "last30Days rt = Inr days"
  shows "(if list_ex (\<lambda>s. new_Date rt (date s) = None) (profile_daily d)
          then getServerSideProps rt (Some u) getUserApi getStats = Inl RangeError
          else (\<exists>P. getServerSideProps rt (Some u) getUserApi getStats = Inr (Props P))) \<and>
         new_Date rt Undefined = None \<and> new_Date rt Null = Some 0"
proof -
  have nd: "new_Date rt Undefined = None \<and> new_Date rt Null = Some 0"
    by (simp add: new_Date_def TimeClip_def)
  show ?thesis
  proof (cases "list_ex (\<lambda>s. new_Date rt (date s) = None) (profile_daily d)")
    case True
    obtain individual where "filter_individual p (links_individual d) = Inr individual"
      using filter_individual_Inr[OF links] by blast
    then have "reshape rt p (Some d) = Inl RangeError"
      using mapE_stat_entry_invalid[OF True] by (simp add: reshape_def)
    then have "getServerSideProps rt (Some u) getUserApi getStats = Inl RangeError"
      using api stats by (simp add: getServerSideProps_def)
    with True nd show ?thesis by simp
  next
    case False
    then have "list_all (\<lambda>s. new_Date rt (date s) \<noteq> None) (profile_daily d)"
      by (simp add: list_all_iff list_ex_iff)
    from run_total[where getUserApi = getUserApi and getStats = getStats and u = u,
        OF api stats links this days] False nd show ?thesis by simp
  qed
qed

text \<open>At an input whose second sample has no date.\<close>

theorem invalid_date_throws_RangeError_witness:
  "getServerSideProps utc_runtime (Some ''alice'') (\<lambda>u. (200, example_profile))
     (\<lambda>u. Some undefined_date_stats) = Inl RangeError"
proof -
  have links: "links_individual undefined_date_stats = [] \<or> links example_profile \<noteq> None"
    by (simp add: example_profile_def)
  have ex: "list_ex (\<lambda>s. new_Date utc_runtime (date s) = None) (profile_daily undefined_date_stats)"
    by (simp add: undefined_date_stats_def new_Date_def)
  show ?thesis
    using invalid_date_throws_RangeError[where getUserApi = "\<lambda>u. (200, example_profile)"
        and getStats = "\<lambda>u. Some undefined_date_stats" and u = "''alice''",
        OF refl refl links last30Days_utc_runtime] ex
    by simp
qed

text \<open>
  C7 as stated fails: a sample whose date is \<open>null\<close> is not rejected.  The call returns
  props; the sample was filed under 1970-01-01 and none of the thirty entries shows it.
\<close>

theorem null_date_not_rejected:
  "getServerSideProps utc_runtime (Some ''alice'') (\<lambda>u. (200, example_profile))
     (\<lambda>u. Some null_date_stats)
   = Inr (Props (example_props \<lparr> data := (data example_props) \<lparr> profile_daily := zero_series \<rparr> \<rparr>))"
  by code_simp

text \<open>
  C8 at a failing input.  Two calls in the zone Europe/Berlin with the same data on the
  same day (2026-11-03, in UTC and in local time), at 00:30Z and at 11:00Z, return
  different props.
\<close>

theorem berlin_same_day_differs:
  "Day (Date_now berlin_runtime) = Day (Date_now berlin_noon) \<and>
   Day (LocalTime berlin_runtime (Date_now berlin_runtime))
     = Day (LocalTime berlin_noon (Date_now berlin_noon)) \<and>
   getServerSideProps berlin_runtime (Some ''alice'') (\<lambda>u. (200, example_profile)) (\<lambda>u. Some no_samples)
     \<noteq> getServerSideProps berlin_noon (Some ''alice'') (\<lambda>u. (200, example_profile)) (\<lambda>u. Some no_samples)"
  by code_simp

text \<open>
  C9.  \<open>progress.missing\<close> lists, in the order links, milestones, tags, socials,
  testimonials, the sections whose array is absent or empty.  \<open>progress.percentage\<close> is
  \<open>((5 - |missing|) / 5) * 100\<close> without decimals: the string 100 with no section missing,
  80 with one, 60 with two, 40 with three, 20 with four and 0 with all five missing.
\<close>

theorem progress_missing_percentage:
  assumes run: "getServerSideProps rt (Some u) getUserApi getStats = Inr (Props P)"
    and api: "getUserApi u = (st, p)"
  shows "missing (progress P) =
           (if links p = None \<or> links p = Some [] then [''links''] else []) @
           (if milestones p = None \<or> milestones p = Some [] then [''milestones''] else []) @
           (if tags p = None \<or> tags p = Some [] then [''tags''] else []) @
           (if socials p = None \<or> socials p = Some [] then [''socials''] else []) @
           (if testimonials p = None \<or> testimonials p = Some [] then [''testimonials''] else []) \<and>
         percentage (progress P) =
           toFixed_0 (((5 - of_nat (length (missing (progress P)))) / 5) * 100) \<and>
         percentage (progress P) =
           [''100'', ''80'', ''60'', ''40'', ''20'', ''0''] ! length (missing (progress P)) \<and>
         percentage (progress P) \<in> set [''0'', ''20'', ''40'', ''60'', ''80'', ''100'']"
proof -
  obtain d where d: "getStats u = Some d"
    using run_Props_stats[OF run] by blast
  have prog: "progress P = compute_progress p"
    using run_Props[OF run d] api by auto
  have m: "missing (compute_progress p) = filter (is_missing p) profileSections"
    by (simp add: compute_progress_def Let_def)
  have n: "length (missing (compute_progress p)) \<le> 5"
    unfolding m by (rule length_missing_le)
  have one: "missing (progress P) =
           (if links p = None \<or> links p = Some [] then [''links''] else []) @
           (if milestones p = None \<or> milestones p = Some [] then [''milestones''] else []) @
           (if tags p = None \<or> tags p = Some [] then [''tags''] else []) @
           (if socials p = None \<or> socials p = Some [] then [''socials''] else []) @
           (if testimonials p = None \<or> testimonials p = Some [] then [''testimonials''] else [])"
    unfolding prog m by (rule missing_sections)
  have sub: "(5 - of_nat (length (missing (compute_progress p))) :: rat)
               = of_nat (5 - length (missing (compute_progress p)))"
    using n by (simp add: of_nat_diff)
  have two: "percentage (progress P) =
           toFixed_0 (((5 - of_nat (length (missing (progress P)))) / 5) * 100)"
    unfolding prog sub
    by (simp add: compute_progress_def Let_def profileSections_def)
  have three: "percentage (progress P) =
           [''100'', ''80'', ''60'', ''40'', ''20'', ''0''] ! length (missing (progress P))"
    unfolding prog by (rule compute_progress_percentage)
  have "[''100'', ''80'', ''60'', ''40'', ''20'', ''0''] ! length (missing (compute_progress p))
          \<in> set [''0'', ''20'', ''40'', ''60'', ''80'', ''100'']"
    using at_most_five[OF n] by (elim disjE) simp_all
  then have four: "percentage (progress P) \<in> set [''0'', ''20'', ''40'', ''60'', ''80'', ''100'']"
    unfolding prog compute_progress_percentage .
  from one two three four show ?thesis by blast
qed

text \<open>
  At the example run, whose profile has no milestones and an empty list of socials: two
  sections are missing and the percentage is 60.
\<close>

theorem progress_missing_percentage_witness:
  "\<exists>P. getServerSideProps utc_runtime (Some ''alice'') (\<lambda>u. (200, example_profile))
          (\<lambda>u. Some example_stats) = Inr (Props P) \<and>
        missing (progress P) = [''milestones'', ''socials''] \<and>
        percentage (progress P) = ''60''"
proof -
  note inst = progress_missing_percentage[where getUserApi = "\<lambda>u. (200, example_profile)",
        OF example_run refl]
  have m: "missing (progress example_props) = [''milestones'', ''socials'']"
    using inst by (simp add: example_profile_def)
  have "percentage (progress example_props) =
          [''100'', ''80'', ''60'', ''40'', ''20'', ''0''] ! length (missing (progress example_props))"
    using inst by blast
  then have "percentage (progress example_props) = ''60''"
    unfolding m by simp
  with example_run m show ?thesis by blast
qed

text \<open>
  C10, as the code has it.  The entries left in \<open>data.links.individual\<close> are those of the
  input whose url is the url of a link of the profile.  \<open>data.links.clicks\<close> is their
  clicks added from left to right as Numbers; while the magnitudes of these clicks add up
  to at most \<open>2 ^ 53\<close> it is the sum of their clicks.
\<close>

theorem links_filtered_and_totalled:
  assumes run: "getServerSideProps rt (Some u) getUserApi getStats = Inr (Props P)"
    and api: "getUserApi u = (st, p)"
    and stats: "getStats u = Some d"
  shows "links_individual (data P) =
           filter (\<lambda>l. \<exists>pLinks. links p = Some pLinks \<and> url l \<in> url ` set pLinks)
             (links_individual d) \<and>
         (\<forall>l\<in>set (links_individual (data P)).
            \<exists>pLinks pLink. links p = Some pLinks \<and> pLink \<in> set pLinks \<and> url pLink = url l) \<and>
         links_clicks (data P) =
           foldl (\<lambda>acc l. add_Number acc (clicks l)) (Finite 0) (links_individual (data P)) \<and>
         (sum_list (map (\<lambda>l. \<bar>clicks l\<bar>) (links_individual (data P))) \<le> 9007199254740992 \<longrightarrow>
            links_clicks (data P) = Finite (sum_list (map clicks (links_individual (data P)))))"
proof -
  from run_Props[OF run stats] api obtain individual where
    f: "filter_individual p (links_individual d) = Inr individual"
    and i: "links_individual (data P) = individual"
    and c: "links_clicks (data P) = totalClicks individual"
    by auto
  have one: "links_individual (data P) =
           filter (\<lambda>l. \<exists>pLinks. links p = Some pLinks \<and> url l \<in> url ` set pLinks)
             (links_individual d)"
    unfolding i by (rule filter_individual_D[OF f])
  have two: "\<forall>l\<in>set (links_individual (data P)).
            \<exists>pLinks pLink. links p = Some pLinks \<and> pLink \<in> set pLinks \<and> url pLink = url l"
    unfolding one by (auto simp: image_iff)
  have three: "links_clicks (data P) =
           foldl (\<lambda>acc l. add_Number acc (clicks l)) (Finite 0) (links_individual (data P))"
    unfolding c i by (simp add: totalClicks_def)
  have four: "sum_list (map (\<lambda>l. \<bar>clicks l\<bar>) (links_individual (data P))) \<le> 9007199254740992 \<longrightarrow>
            links_clicks (data P) = Finite (sum_list (map clicks (links_individual (data P))))"
    unfolding c i by (simp add: totalClicks_sum)
  from one two three four show ?thesis by blast
qed

text \<open>
  At the example run: the link to old.example.com is not a link of the profile, and the
  total is the 3 clicks of the link that is.
\<close>

theorem links_filtered_and_totalled_witness:
  "\<exists>P. getServerSideProps utc_runtime (Some ''alice'') (\<lambda>u. (200, example_profile))
          (\<lambda>u. Some example_stats) = Inr (Props P) \<and>
        links_individual (data P) = [\<lparr> url = ''https://github.com/alice'', clicks = 3 \<rparr>] \<and>
        links_clicks (data P) = Finite 3"
proof -
  have "links_individual (data example_props) =
           filter (\<lambda>l. \<exists>pLinks. links example_profile = Some pLinks \<and> url l \<in> url ` set pLinks)
             (links_individual example_stats) \<and>
         (sum_list (map (\<lambda>l. \<bar>clicks l\<bar>) (links_individual (data example_props))) \<le> 9007199254740992 \<longrightarrow>
            links_clicks (data example_props)
              = Finite (sum_list (map clicks (links_individual (data example_props)))))"
    using links_filtered_and_totalled[where getUserApi = "\<lambda>u. (200, example_profile)"
        and getStats = "\<lambda>u. Some example_stats", OF example_run refl refl]
    by blast
  then have "links_individual (data example_props) = [\<lparr> url = ''https://github.com/alice'', clicks = 3 \<rparr>] \<and>
        links_clicks (data example_props) = Finite 3"
    by (simp add: example_profile_def example_stats_def)
  with example_run show ?thesis by blast
qed

text \<open>
  C10 as stated fails: three retained entries with the clicks \<open>2 ^ 53\<close>, 1 and 1.  Each
  addition of 1 rounds back to \<open>2 ^ 53\<close>, so \<open>data.links.clicks\<close> is \<open>2 ^ 53\<close> and the sum
  of the clicks is \<open>2 ^ 53 + 2\<close>.
\<close>

theorem clicks_total_rounds:
  "getServerSideProps utc_runtime (Some ''alice'') (\<lambda>u. (200, example_profile))
     (\<lambda>u. Some many_clicks_stats)
   = Inr (Props (example_props \<lparr> data := (data example_props)
         \<lparr> links_individual := links_individual many_clicks_stats,
           links_clicks := Finite 9007199254740992 \<rparr> \<rparr>)) \<and>
   sum_list (map clicks (links_individual many_clicks_stats)) = 9007199254740994"
  by code_simp

end
